theory Spec2Isabelle
  imports Main "HOL-Library.AList" "HOL-Library.Sublist"
begin

section \<open>Python values, exceptions and the backend session\<close>

text \<open>
  The transforms and collections handed to \<open>update_request_with_transforms\<close> are
  keyword dictionaries whose keys the code tests, deletes and sets, so they are modelled
  dynamically: a dictionary is an association list in insertion order, its values are
  \<open>pyval\<close>s. Distinct dictionaries of one call are distinct objects (no aliasing between
  the elements of \<open>transforms_to_add\<close>).
\<close>

datatype pyval =
    PNone
  | PInt int
  | PStr string
  | PList "pyval list"
  | PDict "(string \<times> pyval) list"

type_synonym kwargs = "(string \<times> pyval) list"

text \<open>
  What the backend (SQLAlchemy) raises from \<open>session.execute\<close>: \<open>IntegrityError\<close>,
  any other \<open>DatabaseError\<close>, or an exception outside that hierarchy.
\<close>

datatype backend_error =
    IntegrityError string
  | DatabaseError string
  | DriverError string

datatype exn =
    WrongParameterException string
  | DuplicatedObject string
  | DatabaseException string
  | NoObject string
  | KeyError string
  | TypeError string
  | ValueError string
  | AttributeError string
  | BackendException backend_error

text \<open>
  Modelled from the spec: the enum \<open>RequestLocking\<close> of \<open>idds.common.constants\<close> is not
  under src/. Section 3: the locking state of a Request is Idle or Locking.
\<close>

datatype RequestLocking = Idle | Locking

text \<open>
  Modelled from the spec: the requests table is declared outside src/. Section 3: a
  Request has an identifier, a request type, a status, a locking state, a priority, a
  workload identifier, metadata and an update timestamp (here in seconds). The status is
  the name of a member of \<open>RequestStatus\<close>. Sections 4.1 and 9: the lease is the
  locking flag plus the time at which the lock was acquired, \<open>r_locked_at\<close>; it is a
  flat timeout and is not renewed.
\<close>

record request =
  r_request_id :: int
  r_request_type :: string
  r_status :: string
  r_locking :: RequestLocking
  r_priority :: int
  r_workload_id :: "int option"
  r_request_metadata :: pyval
  r_updated_at :: int
  r_locked_at :: int

text \<open>
  One entry of the \<open>parameters\<close> dictionary of an update of a Request: the field and
  its new value.
\<close>

datatype request_param =
    Set_status string
  | Set_locking RequestLocking
  | Set_priority int
  | Set_workload_id "int option"
  | Set_request_metadata pyval

text \<open>
  A value of an enum-typed argument or column: \<open>None\<close>, a plain integer, or a member
  (name and value) of the enum the position expects, \<open>ContentType\<close> for a content type
  and \<open>ContentStatus\<close> for a status.
\<close>

datatype pyenum = ENone | EInt int | EMember string int

text \<open>
  A content as a dictionary of its columns: the keyword arguments of \<open>add_content\<close>, the
  bound parameters of an insert, a row of the contents table, the dictionary that
  \<open>get_content\<close> returns. Timestamps are seconds.
\<close>

record content =
  c_content_id :: "int option"
  c_coll_id :: "int option"
  c_scope :: "string option"
  c_name :: "string option"
  c_min_id :: "int option"
  c_max_id :: "int option"
  c_content_type :: pyenum
  c_status :: pyenum
  c_bytes :: "int option"
  c_md5 :: "string option"
  c_adler32 :: "string option"
  c_processing_id :: "int option"
  c_storage_id :: "int option"
  c_retries :: "int option"
  c_path :: "string option"
  c_expired_at :: "int option"
  c_content_metadata :: pyval

record database =
  requests_tbl :: "request list"
  transforms_tbl :: "kwargs list"
  collections_tbl :: "kwargs list"
  contents_tbl :: "content list"

text \<open>One conjunct \<open>column = :param\<close> of a where clause over the contents table.\<close>

datatype cond =
    Eq_content_id "int option"
  | Eq_coll_id "int option"
  | Eq_scope "string option"
  | Eq_name "string option"
  | Eq_content_type pyenum
  | Eq_min_id "int option"
  | Eq_max_id "int option"

datatype stmt =
    InsertTransform kwargs
  | InsertCollection kwargs
  | UpdateTransform pyval kwargs
  | UpdateRequest int "request_param list"
  | SelectRequests "string list" "string option" "int option" bool "nat option"
  | CleanLocking int
  | InsertContent content bool
  | InsertContents "content list" bool
  | SelectContents "cond list"
  | Commit

text \<open>
  Modelled from the spec: the session of \<open>idds.orm.base.session\<close> and the storage backend
  behind it are not under src/. Section 2 and 6: the backend is a transactional store
  that executes statements, enforces uniqueness and generates identifiers on insert. The
  session holds the tables, the identifier sequence of the backend, the clock, the
  outcomes that the backend will give to the next statements (\<open>None\<close>: the statement is
  carried out; a missing entry counts as \<open>None\<close>; an error stands for a uniqueness
  violation or any other failure of the backend), and the statements issued so far.
\<close>

record session =
  db :: database
  seq :: int
  now :: int
  outcomes :: "backend_error option list"
  issued :: "stmt list"

text \<open>
  Modelled from the spec: \<open>session.execute\<close>. The statement is recorded and the backend
  gives its next outcome; the effect of a statement that is carried out is written where
  the statement is issued.
\<close>

definition execute :: "stmt \<Rightarrow> session \<Rightarrow> backend_error option \<times> session" where
  "execute st s =
     (case outcomes s of
        [] \<Rightarrow> (None, s\<lparr>issued := issued s @ [st]\<rparr>)
      | out # rest \<Rightarrow> (out, s\<lparr>outcomes := rest, issued := issued s @ [st]\<rparr>))"

text \<open>
  Modelled from the spec: the exception of a failing commit. Section 7: a transaction
  failure is a BackendFailure; an unexpected backend exception is passed through.
\<close>

fun commit_error :: "backend_error \<Rightarrow> exn" where
  "commit_error (IntegrityError t) = DatabaseException t"
| "commit_error (DatabaseError t) = DatabaseException t"
| "commit_error (DriverError t) = BackendException (DriverError t)"

text \<open>
  Modelled from the spec: the decorator \<open>transactional_session\<close> of
  \<open>idds.orm.base.session\<close> is not under src/. Section 4.2 and 7: the statements of one
  call share one transaction boundary; the call commits when the function returns; any
  failure (of the function or of the commit) rolls back every insert and update performed
  in the call and is passed on to the caller. The statements stay recorded as issued.
\<close>

definition transactional_session ::
  "(session \<Rightarrow> (exn + 'a) \<times> session) \<Rightarrow> session \<Rightarrow> (exn + 'a) \<times> session" where
  "transactional_session function s =
     (case function s of
        (Inl e, s1) \<Rightarrow> (Inl e, s1\<lparr>db := db s\<rparr>)
      | (Inr result, s1) \<Rightarrow>
          (case execute Commit s1 of
             (Some err, s2) \<Rightarrow> (Inl (commit_error err), s2\<lparr>db := db s\<rparr>)
           | (None, s2) \<Rightarrow> (Inr result, s2)))"

subsection \<open>The Python operations on values that the code uses\<close>

text \<open>\<open>len(x)\<close>\<close>

fun py_len :: "pyval \<Rightarrow> exn + nat" where
  "py_len (PDict d) = Inr (length d)"
| "py_len (PList xs) = Inr (length xs)"
| "py_len (PStr s) = Inr (length s)"
| "py_len PNone = Inl (TypeError ''object of type NoneType has no len()'')"
| "py_len (PInt i) = Inl (TypeError ''object of type int has no len()'')"

text \<open>\<open>x[k]\<close> for a string key \<open>k\<close>\<close>

fun py_getitem :: "pyval \<Rightarrow> string \<Rightarrow> exn + pyval" where
  "py_getitem (PDict d) k = (case map_of d k of None \<Rightarrow> Inl (KeyError k) | Some v \<Rightarrow> Inr v)"
| "py_getitem (PList xs) k = Inl (TypeError ''list indices must be integers or slices, not str'')"
| "py_getitem (PStr s) k = Inl (TypeError ''string indices must be integers'')"
| "py_getitem PNone k = Inl (TypeError ''NoneType object is not subscriptable'')"
| "py_getitem (PInt i) k = Inl (TypeError ''int object is not subscriptable'')"

text \<open>\<open>k in x\<close> for a string \<open>k\<close>\<close>

fun py_contains :: "string \<Rightarrow> pyval \<Rightarrow> exn + bool" where
  "py_contains k (PDict d) = Inr (map_of d k \<noteq> None)"
| "py_contains k (PList xs) = Inr (PStr k \<in> set xs)"
| "py_contains k (PStr s) = Inr (sublist k s)"
| "py_contains k PNone = Inl (TypeError ''argument of type NoneType is not iterable'')"
| "py_contains k (PInt i) = Inl (TypeError ''argument of type int is not iterable'')"

text \<open>\<open>for e in x\<close>: the elements the loop visits\<close>

fun py_iter :: "pyval \<Rightarrow> exn + pyval list" where
  "py_iter (PList xs) = Inr xs"
| "py_iter (PDict d) = Inr (map (\<lambda>kv. PStr (fst kv)) d)"
| "py_iter (PStr s) = Inr (map (\<lambda>c. PStr [c]) s)"
| "py_iter PNone = Inl (TypeError ''NoneType object is not iterable'')"
| "py_iter (PInt i) = Inl (TypeError ''int object is not iterable'')"

text \<open>\<open>x[k] = v\<close> for a string key \<open>k\<close>: the dictionary after the assignment\<close>

fun py_setitem :: "pyval \<Rightarrow> string \<Rightarrow> pyval \<Rightarrow> exn + kwargs" where
  "py_setitem (PDict d) k v = Inr (AList.update k v d)"
| "py_setitem (PList xs) k v = Inl (TypeError ''list indices must be integers or slices, not str'')"
| "py_setitem (PStr s) k v = Inl (TypeError ''str object does not support item assignment'')"
| "py_setitem PNone k v = Inl (TypeError ''NoneType object does not support item assignment'')"
| "py_setitem (PInt i) k v = Inl (TypeError ''int object does not support item assignment'')"

text \<open>SQL equality \<open>column = :param\<close>: never true on NULL.\<close>

definition sql_eq :: "pyval \<Rightarrow> pyval \<Rightarrow> bool" where
  "sql_eq a b = (a \<noteq> PNone \<and> b \<noteq> PNone \<and> a = b)"

section \<open>The entity stores the commit protocol calls\<close>

text \<open>
  The modules \<open>idds.orm.transforms\<close>, \<open>idds.orm.collections\<close> and \<open>idds.orm.requests\<close>
  are not under src/; their functions are modelled from sections 4.3 and 7 of the spec.
\<close>

text \<open>
  Modelled from the spec: the exception that an entity store raises for a backend error.
  Section 7: an integrity error is re-raised as Duplicate, a generic database error as
  BackendFailure, anything else is passed through unmodified.
\<close>

fun orm_error :: "backend_error \<Rightarrow> exn" where
  "orm_error (IntegrityError t) = DuplicatedObject t"
| "orm_error (DatabaseError t) = DatabaseException t"
| "orm_error (DriverError t) = BackendException (DriverError t)"

text \<open>
  Modelled from the spec: \<open>add_transform\<close> of \<open>idds.orm.transforms\<close>. Section 4.3,
  \<open>Add(fields)\<close>: one insert of a row with the fields given and a generated identifier,
  which is returned.
\<close>

definition orm_transforms_add_transform :: "kwargs \<Rightarrow> session \<Rightarrow> (exn + int) \<times> session" where
  "orm_transforms_add_transform kw s =
     (case execute (InsertTransform kw) s of
        (Some err, s1) \<Rightarrow> (Inl (orm_error err), s1)
      | (None, s1) \<Rightarrow>
          (let tid = seq s1 + 1 in
           (Inr tid, s1\<lparr>seq := tid,
              db := (db s1)\<lparr>transforms_tbl :=
                transforms_tbl (db s1) @ [AList.update ''transform_id'' (PInt tid) kw]\<rparr>\<rparr>)))"

text \<open>
  Modelled from the spec: \<open>add_collection\<close> of \<open>idds.orm.collections\<close>. Section 4.3,
  \<open>Add(fields)\<close>, as for a Transform.
\<close>

definition orm_collections_add_collection :: "kwargs \<Rightarrow> session \<Rightarrow> (exn + int) \<times> session" where
  "orm_collections_add_collection kw s =
     (case execute (InsertCollection kw) s of
        (Some err, s1) \<Rightarrow> (Inl (orm_error err), s1)
      | (None, s1) \<Rightarrow>
          (let cid = seq s1 + 1 in
           (Inr cid, s1\<lparr>seq := cid,
              db := (db s1)\<lparr>collections_tbl :=
                collections_tbl (db s1) @ [AList.update ''coll_id'' (PInt cid) kw]\<rparr>\<rparr>)))"

text \<open>
  Modelled from the spec: the field update of a row; each parameter overwrites the column
  of its name.
\<close>

definition set_fields :: "kwargs \<Rightarrow> kwargs \<Rightarrow> kwargs" where
  "set_fields parameters row = foldl (\<lambda>r kv. AList.update (fst kv) (snd kv) r) row parameters"

text \<open>
  Modelled from the spec: \<open>update_transform\<close> of \<open>idds.orm.transforms\<close>. Section 4.2
  and 4.3, \<open>Update(id, fields)\<close>: a field update of the Transform rows with that
  identifier.
\<close>

definition orm_transforms_update_transform ::
  "pyval \<Rightarrow> kwargs \<Rightarrow> session \<Rightarrow> (exn + unit) \<times> session" where
  "orm_transforms_update_transform transform_id parameters s =
     (case execute (UpdateTransform transform_id parameters) s of
        (Some err, s1) \<Rightarrow> (Inl (orm_error err), s1)
      | (None, s1) \<Rightarrow>
          (Inr (), s1\<lparr>db := (db s1)\<lparr>transforms_tbl :=
             map (\<lambda>row. case map_of row ''transform_id'' of
                           None \<Rightarrow> row
                         | Some v \<Rightarrow> if sql_eq v transform_id then set_fields parameters row else row)
                 (transforms_tbl (db s1))\<rparr>\<rparr>))"

text \<open>Modelled from the spec: the update of one field of a Request.\<close>

fun set_request_field :: "request \<Rightarrow> request_param \<Rightarrow> request" where
  "set_request_field r (Set_status v) = r\<lparr>r_status := v\<rparr>"
| "set_request_field r (Set_locking v) = r\<lparr>r_locking := v\<rparr>"
| "set_request_field r (Set_priority v) = r\<lparr>r_priority := v\<rparr>"
| "set_request_field r (Set_workload_id v) = r\<lparr>r_workload_id := v\<rparr>"
| "set_request_field r (Set_request_metadata v) = r\<lparr>r_request_metadata := v\<rparr>"

text \<open>
  Modelled from the spec: what an update does to one row of the requests table. The row
  with the identifier gets the parameters and the time of the update as its update
  timestamp; when the update takes the lock (the row was Idle and becomes Locking), that
  time is also the time the lock was acquired, which no other update changes. Any other
  row is left as it is.
\<close>

definition update_row :: "int \<Rightarrow> request_param list \<Rightarrow> int \<Rightarrow> request \<Rightarrow> request" where
  "update_row request_id parameters t r =
     (if r_request_id r = request_id
      then (foldl set_request_field r parameters)
             \<lparr>r_updated_at := t,
              r_locked_at :=
                (if r_locking r = Idle \<and> r_locking (foldl set_request_field r parameters) = Locking
                 then t else r_locked_at r)\<rparr>
      else r)"

text \<open>
  Modelled from the spec: \<open>update_request\<close> of \<open>idds.orm.requests\<close>. Section 4.3,
  \<open>Update(id, fields)\<close>: one update statement over the rows with that identifier.
\<close>

definition orm_requests_update_request ::
  "int \<Rightarrow> request_param list \<Rightarrow> session \<Rightarrow> (exn + unit) \<times> session" where
  "orm_requests_update_request request_id parameters s =
     (case execute (UpdateRequest request_id parameters) s of
        (Some err, s1) \<Rightarrow> (Inl (orm_error err), s1)
      | (None, s1) \<Rightarrow>
          (Inr (), s1\<lparr>db := (db s1)\<lparr>requests_tbl :=
             map (update_row request_id parameters (now s1)) (requests_tbl (db s1))\<rparr>\<rparr>))"

section \<open>core/requests.py: update_request_with_transforms\<close>

definition no_collections_msg :: string where
  "no_collections_msg =
     ''Transform must have collections, such as input collection, output collection and log collection''"

text \<open>
  The loops over \<open>collections['input_collections']\<close> and \<open>collections['log_collections']\<close>
  (lines 124-127 and 128-131): stamp the collection, insert it, append its identifier.
\<close>

fun add_collections_loop ::
  "int \<Rightarrow> pyval list \<Rightarrow> int list \<Rightarrow> session \<Rightarrow> (exn + int list) \<times> session" where
  "add_collections_loop transform_id [] coll_ids s = (Inr coll_ids, s)"
| "add_collections_loop transform_id (collection # rest) coll_ids s =
     (case py_setitem collection ''transform_id'' (PInt transform_id) of
        Inl e \<Rightarrow> (Inl e, s)
      | Inr collection1 \<Rightarrow>
          (case orm_collections_add_collection collection1 s of
             (Inl e, s1) \<Rightarrow> (Inl e, s1)
           | (Inr coll_id, s1) \<Rightarrow> add_collections_loop transform_id rest (coll_ids @ [coll_id]) s1))"

text \<open>
  Line 134:
  \<open>transform['transform_metadata']['workload_id'] if 'workload_id' in transform['transform_metadata'] else None\<close>
\<close>

definition workload_id_of :: "kwargs \<Rightarrow> exn + pyval" where
  "workload_id_of transform =
     (case py_getitem (PDict transform) ''transform_metadata'' of
        Inl e \<Rightarrow> Inl e
      | Inr md \<Rightarrow>
          (case py_contains ''workload_id'' md of
             Inl e \<Rightarrow> Inl e
           | Inr present \<Rightarrow> if present then py_getitem md ''workload_id'' else Inr PNone))"

definition output_metadata :: "int \<Rightarrow> pyval \<Rightarrow> int list \<Rightarrow> int list \<Rightarrow> pyval" where
  "output_metadata transform_id workload_id input_coll_ids log_coll_ids =
     PDict [(''transform_id'', PInt transform_id),
            (''workload_id'', workload_id),
            (''input_collections'', PList (map PInt input_coll_ids)),
            (''log_collections'', PList (map PInt log_coll_ids))]"

text \<open>The loop over \<open>collections['output_collections']\<close> (lines 132-139).\<close>

fun output_collections_loop ::
  "kwargs \<Rightarrow> int \<Rightarrow> int list \<Rightarrow> int list \<Rightarrow> pyval list \<Rightarrow> session \<Rightarrow> (exn + unit) \<times> session" where
  "output_collections_loop transform transform_id input_coll_ids log_coll_ids [] s = (Inr (), s)"
| "output_collections_loop transform transform_id input_coll_ids log_coll_ids (collection # rest) s =
     (case py_setitem collection ''transform_id'' (PInt transform_id) of
        Inl e \<Rightarrow> (Inl e, s)
      | Inr collection1 \<Rightarrow>
          (case workload_id_of transform of
             Inl e \<Rightarrow> (Inl e, s)
           | Inr workload_id \<Rightarrow>
               (case orm_collections_add_collection
                       (AList.update ''coll_metadata''
                          (output_metadata transform_id workload_id input_coll_ids log_coll_ids)
                          collection1) s of
                  (Inl e, s1) \<Rightarrow> (Inl e, s1)
                | (Inr coll_id, s1) \<Rightarrow>
                    output_collections_loop transform transform_id input_coll_ids log_coll_ids rest s1)))"

text \<open>The elements visited by \<open>for collection in collections[key]\<close>.\<close>

definition collection_list :: "pyval \<Rightarrow> string \<Rightarrow> exn + pyval list" where
  "collection_list collections key =
     (case py_getitem collections key of Inl e \<Rightarrow> Inl e | Inr v \<Rightarrow> py_iter v)"

text \<open>One iteration of \<open>for transform in transforms_to_add\<close> (lines 114-139).\<close>

definition add_transform_iteration :: "kwargs \<Rightarrow> session \<Rightarrow> (exn + unit) \<times> session" where
  "add_transform_iteration transform s =
     (case map_of transform ''collections'' of
        None \<Rightarrow> (Inl (WrongParameterException no_collections_msg), s)
      | Some collections \<Rightarrow>
     (case py_len collections of
        Inl e \<Rightarrow> (Inl e, s)
      | Inr n \<Rightarrow>
     if n = 0 then (Inl (WrongParameterException no_collections_msg), s)
     else
     (let transform1 = AList.delete ''collections'' transform in
     (case orm_transforms_add_transform transform1 s of
        (Inl e, s1) \<Rightarrow> (Inl e, s1)
      | (Inr transform_id, s1) \<Rightarrow>
     (case collection_list collections ''input_collections'' of
        Inl e \<Rightarrow> (Inl e, s1)
      | Inr input_list \<Rightarrow>
     (case add_collections_loop transform_id input_list [] s1 of
        (Inl e, s2) \<Rightarrow> (Inl e, s2)
      | (Inr input_coll_ids, s2) \<Rightarrow>
     (case collection_list collections ''log_collections'' of
        Inl e \<Rightarrow> (Inl e, s2)
      | Inr log_list \<Rightarrow>
     (case add_collections_loop transform_id log_list [] s2 of
        (Inl e, s3) \<Rightarrow> (Inl e, s3)
      | (Inr log_coll_ids, s3) \<Rightarrow>
     (case collection_list collections ''output_collections'' of
        Inl e \<Rightarrow> (Inl e, s3)
      | Inr output_list \<Rightarrow>
          output_collections_loop transform1 transform_id input_coll_ids log_coll_ids
            output_list s3)))))))))"

fun add_transforms_loop :: "kwargs list \<Rightarrow> session \<Rightarrow> (exn + unit) \<times> session" where
  "add_transforms_loop [] s = (Inr (), s)"
| "add_transforms_loop (transform # rest) s =
     (case add_transform_iteration transform s of
        (Inl e, s1) \<Rightarrow> (Inl e, s1)
      | (Inr u, s1) \<Rightarrow> add_transforms_loop rest s1)"

text \<open>The loop \<open>for transform in transforms_to_extend\<close> (lines 141-145).\<close>

fun extend_transforms_loop :: "kwargs list \<Rightarrow> session \<Rightarrow> (exn + unit) \<times> session" where
  "extend_transforms_loop [] s = (Inr (), s)"
| "extend_transforms_loop (transform # rest) s =
     (case py_getitem (PDict transform) ''transform_id'' of
        Inl e \<Rightarrow> (Inl e, s)
      | Inr transform_id \<Rightarrow>
          (case orm_transforms_update_transform transform_id
                  (AList.delete ''transform_id'' transform) s of
             (Inl e, s1) \<Rightarrow> (Inl e, s1)
           | (Inr u, s1) \<Rightarrow> extend_transforms_loop rest s1))"

text \<open>The body of the function, run on the session it is given.\<close>

definition update_request_with_transforms_body ::
  "int \<Rightarrow> request_param list \<Rightarrow> kwargs list \<Rightarrow> kwargs list \<Rightarrow> session \<Rightarrow> (exn + unit) \<times> session" where
  "update_request_with_transforms_body request_id parameters transforms_to_add transforms_to_extend s =
     (case add_transforms_loop transforms_to_add s of
        (Inl e, s1) \<Rightarrow> (Inl e, s1)
      | (Inr u, s1) \<Rightarrow>
          (case extend_transforms_loop transforms_to_extend s1 of
             (Inl e, s2) \<Rightarrow> (Inl e, s2)
           | (Inr u, s2) \<Rightarrow> orm_requests_update_request request_id parameters s2))"

text \<open>The decorated function, as a caller without a session of its own calls it.\<close>

definition update_request_with_transforms ::
  "int \<Rightarrow> request_param list \<Rightarrow> kwargs list \<Rightarrow> kwargs list \<Rightarrow> session \<Rightarrow> (exn + unit) \<times> session" where
  "update_request_with_transforms request_id parameters transforms_to_add transforms_to_extend =
     transactional_session
       (update_request_with_transforms_body request_id parameters transforms_to_add transforms_to_extend)"

section \<open>core/requests.py: get_requests_by_status_type and clean_locking\<close>

text \<open>
  Modelled from the spec: the where clause of the select of claimable Requests. Section
  4.1: the status is in the status set, optionally the type is the one given and the row
  was last updated more than \<open>time_period\<close> seconds ago; sections 8 and 9: with the
  lock requested, a row that is already locked is not claimable.
\<close>

definition claimable ::
  "string list \<Rightarrow> string option \<Rightarrow> int option \<Rightarrow> bool \<Rightarrow> int \<Rightarrow> request \<Rightarrow> bool" where
  "claimable status request_type time_period locking t r =
     (r_status r \<in> set status
      \<and> (case request_type of None \<Rightarrow> True | Some ty \<Rightarrow> r_request_type r = ty)
      \<and> (case time_period of None \<Rightarrow> True | Some p \<Rightarrow> r_updated_at r < t - p)
      \<and> (if locking then r_locking r = Idle else True))"

text \<open>
  Modelled from the spec: \<open>get_requests_by_status_type\<close> of \<open>idds.orm.requests\<close> is not
  under src/. Section 4.1: one select of the claimable Requests, capped at \<open>bulk_size\<close>
  rows.
\<close>

definition orm_requests_get_requests_by_status_type ::
  "string list \<Rightarrow> string option \<Rightarrow> int option \<Rightarrow> bool \<Rightarrow> nat option \<Rightarrow> session
     \<Rightarrow> (exn + request list) \<times> session" where
  "orm_requests_get_requests_by_status_type status request_type time_period locking bulk_size s =
     (case execute (SelectRequests status request_type time_period locking bulk_size) s of
        (Some err, s1) \<Rightarrow> (Inl (orm_error err), s1)
      | (None, s1) \<Rightarrow>
          (let rows = filter (claimable status request_type time_period locking (now s1))
                        (requests_tbl (db s1))
           in (Inr (case bulk_size of None \<Rightarrow> rows | Some n \<Rightarrow> take n rows), s1)))"

text \<open>The loop \<open>for req in reqs\<close> (lines 165-166).\<close>

fun lock_requests_loop :: "request list \<Rightarrow> session \<Rightarrow> (exn + unit) \<times> session" where
  "lock_requests_loop [] s = (Inr (), s)"
| "lock_requests_loop (req # rest) s =
     (case orm_requests_update_request (r_request_id req) [Set_locking Locking] s of
        (Inl e, s1) \<Rightarrow> (Inl e, s1)
      | (Inr u, s1) \<Rightarrow> lock_requests_loop rest s1)"

text \<open>The body of the function (lines 162-167), run on the session it is given.\<close>

definition get_requests_by_status_type_body ::
  "string list \<Rightarrow> string option \<Rightarrow> int option \<Rightarrow> bool \<Rightarrow> nat option \<Rightarrow> session
     \<Rightarrow> (exn + request list) \<times> session" where
  "get_requests_by_status_type_body status request_type time_period locking bulk_size s =
     (case orm_requests_get_requests_by_status_type status request_type time_period locking
             bulk_size s of
        (Inl e, s1) \<Rightarrow> (Inl e, s1)
      | (Inr reqs, s1) \<Rightarrow>
          if locking
          then (case lock_requests_loop reqs s1 of
                  (Inl e, s2) \<Rightarrow> (Inl e, s2)
                | (Inr u, s2) \<Rightarrow> (Inr reqs, s2))
          else (Inr reqs, s1))"

text \<open>The decorated function, as a caller without a session of its own calls it.\<close>

definition get_requests_by_status_type ::
  "string list \<Rightarrow> string option \<Rightarrow> int option \<Rightarrow> bool \<Rightarrow> nat option \<Rightarrow> session
     \<Rightarrow> (exn + request list) \<times> session" where
  "get_requests_by_status_type status request_type time_period locking bulk_size =
     transactional_session
       (get_requests_by_status_type_body status request_type time_period locking bulk_size)"

text \<open>
  Modelled from the spec: the where clause of the sweep. Section 4.1: the Request is
  currently Locking and its lock was acquired more than \<open>time_period\<close> seconds ago.
\<close>

definition lock_expired :: "int \<Rightarrow> int \<Rightarrow> request \<Rightarrow> bool" where
  "lock_expired time_period t r = (r_locking r = Locking \<and> time_period < t - r_locked_at r)"

text \<open>
  Modelled from the spec: \<open>clean_locking\<close> of \<open>idds.orm.requests\<close> is not under src/.
  Section 4.1: it sweeps all Requests currently Locking whose lock was acquired more than
  \<open>time_period\<close> seconds ago and resets them to Idle.
\<close>

definition orm_requests_clean_locking :: "int \<Rightarrow> session \<Rightarrow> (exn + unit) \<times> session" where
  "orm_requests_clean_locking time_period s =
     (case execute (CleanLocking time_period) s of
        (Some err, s1) \<Rightarrow> (Inl (orm_error err), s1)
      | (None, s1) \<Rightarrow>
          (Inr (), s1\<lparr>db := (db s1)\<lparr>requests_tbl :=
             map (\<lambda>r. if lock_expired time_period (now s1) r then r\<lparr>r_locking := Idle\<rparr> else r)
                 (requests_tbl (db s1))\<rparr>\<rparr>))"

text \<open>
  The decorated function of core/requests.py (lines 170-177): it delegates to the entity
  store inside one transaction.
\<close>

definition clean_locking :: "int \<Rightarrow> session \<Rightarrow> (exn + unit) \<times> session" where
  "clean_locking time_period = transactional_session (orm_requests_clean_locking time_period)"

section \<open>orm/contents.py\<close>

text \<open>
  What the functions take from outside src/, as parameters: the members (name and value)
  of the enums \<open>ContentType\<close> and \<open>ContentStatus\<close> of \<open>idds.common.constants\<close>, and
  \<open>json.dumps\<close> and \<open>json.loads\<close>. The decorator \<open>read_session\<close> hands the session to
  the function, and \<open>row2dict\<close> makes the dictionary of a row's columns.
\<close>

record env =
  ContentType :: "(string \<times> int) list"
  ContentStatus :: "(string \<times> int) list"
  json_dumps :: "pyval \<Rightarrow> string"
  json_loads :: "string \<Rightarrow> exn + pyval"

text \<open>\<open>if isinstance(x, Enum): x = x.value\<close>\<close>

fun enum_value :: "pyenum \<Rightarrow> pyenum" where
  "enum_value (EMember n v) = EInt v"
| "enum_value x = x"

text \<open>\<open>Enum(x)\<close>: the member with that value; a member is returned as it is.\<close>

fun enum_call :: "(string \<times> int) list \<Rightarrow> pyenum \<Rightarrow> exn + pyenum" where
  "enum_call members (EInt v) =
     (case find (\<lambda>m. snd m = v) members of
        None \<Rightarrow> Inl (ValueError ''not a valid member'')
      | Some m \<Rightarrow> Inr (EMember (fst m) v))"
| "enum_call members (EMember n v) = Inr (EMember n v)"
| "enum_call members ENone = Inl (ValueError ''None is not a valid member'')"

text \<open>\<open>Enum.Name\<close>: the member of that name.\<close>

definition enum_attr :: "(string \<times> int) list \<Rightarrow> string \<Rightarrow> exn + pyenum" where
  "enum_attr members n =
     (case map_of members n of None \<Rightarrow> Inl (AttributeError n) | Some v \<Rightarrow> Inr (EMember n v))"

text \<open>Truth value of a Python value (\<open>if x:\<close>).\<close>

fun py_truthy :: "pyval \<Rightarrow> bool" where
  "py_truthy PNone = False"
| "py_truthy (PInt i) = (i \<noteq> 0)"
| "py_truthy (PStr s) = (s \<noteq> [])"
| "py_truthy (PList xs) = (xs \<noteq> [])"
| "py_truthy (PDict d) = (d \<noteq> [])"

text \<open>\<open>str(x)\<close> for the values that the messages print, and \<open>fmt % args\<close>.\<close>

fun str_nat :: "nat \<Rightarrow> string" where
  "str_nat n = (if n < 10 then [char_of (48 + n)] else str_nat (n div 10) @ [char_of (48 + n mod 10)])"

definition str_int :: "int \<Rightarrow> string" where
  "str_int i = (if i < 0 then CHR ''-'' # str_nat (nat (- i)) else str_nat (nat i))"

definition str_int_option :: "int option \<Rightarrow> string" where
  "str_int_option x = (case x of None \<Rightarrow> ''None'' | Some i \<Rightarrow> str_int i)"

definition str_option :: "string option \<Rightarrow> string" where
  "str_option x = (case x of None \<Rightarrow> ''None'' | Some s \<Rightarrow> s)"

fun str_enum :: "string \<Rightarrow> pyenum \<Rightarrow> string" where
  "str_enum cls ENone = ''None''"
| "str_enum cls (EInt v) = str_int v"
| "str_enum cls (EMember n v) = cls @ ''.'' @ n"

fun py_format :: "string \<Rightarrow> string list \<Rightarrow> string" where
  "py_format [] args = []"
| "py_format [c] args = [c]"
| "py_format (c # d # rest) args =
     (if c = CHR ''%'' \<and> d = CHR ''s''
      then (case args of [] \<Rightarrow> py_format rest [] | a # args' \<Rightarrow> a @ py_format rest args')
      else c # py_format (d # rest) args)"

text \<open>
  Modelled from the spec: the effect of an insert into the contents table that the backend
  carries out. Section 6: the row has the bound parameters and a generated identifier.
\<close>

definition insert_content :: "content \<Rightarrow> session \<Rightarrow> session" where
  "insert_content param s =
     s\<lparr>seq := seq s + 1,
       db := (db s)\<lparr>contents_tbl :=
         contents_tbl (db s) @ [param\<lparr>c_content_id := Some (seq s + 1)\<rparr>]\<rparr>\<rparr>"

subsection \<open>add_content\<close>

text \<open>
  Lines 59-64. The sixteen keyword arguments of \<open>add_content\<close> are passed as one
  \<open>content\<close> record, whose \<open>c_content_id\<close> the function does not read.
\<close>

definition content_param :: "env \<Rightarrow> content \<Rightarrow> content" where
  "content_param E c =
     c\<lparr>c_content_id := None,
       c_content_type := enum_value (c_content_type c),
       c_status := enum_value (c_status c),
       c_content_metadata :=
         (if py_truthy (c_content_metadata c) then PStr (json_dumps E (c_content_metadata c))
          else c_content_metadata c)\<rparr>"

text \<open>
  The body of \<open>add_content\<close> (lines 59-111), run on the session it is given: the
  parameters are bound, the insert is issued, and the backend errors are re-raised.
\<close>

definition add_content_body ::
  "env \<Rightarrow> content \<Rightarrow> bool \<Rightarrow> session \<Rightarrow> (exn + int option) \<times> session" where
  "add_content_body E c returning_id s =
     (let param = content_param E c in
      case execute (InsertContent param returning_id) s of
        (Some (IntegrityError error), s1) \<Rightarrow>
          (Inl (DuplicatedObject
                  (py_format ''Content coll_id:scope:name(%s:%s:%s) already exists!: %s''
                     [str_int_option (c_coll_id c), str_option (c_scope c), str_option (c_name c),
                      error])), s1)
      | (Some (DatabaseError error), s1) \<Rightarrow> (Inl (DatabaseException error), s1)
      | (Some (DriverError error), s1) \<Rightarrow> (Inl (BackendException (DriverError error)), s1)
      | (None, s1) \<Rightarrow>
          (if returning_id then (Inr (Some (seq s1 + 1)), insert_content param s1)
           else (Inr None, insert_content param s1)))"

text \<open>The decorated function, as a caller without a session of its own calls it.\<close>

definition add_content ::
  "env \<Rightarrow> content \<Rightarrow> bool \<Rightarrow> session \<Rightarrow> (exn + int option) \<times> session" where
  "add_content E c returning_id = transactional_session (add_content_body E c returning_id)"

subsection \<open>add_contents\<close>

text \<open>
  One entry of a content dictionary handed to \<open>add_contents\<close>; a key that the dictionary
  does not have gets the value of \<open>default_params\<close> (lines 128-133 and 159-164).
\<close>

datatype content_item =
    K_coll_id "int option"
  | K_scope "string option"
  | K_name "string option"
  | K_min_id "int option"
  | K_max_id "int option"
  | K_content_type pyenum
  | K_status pyenum
  | K_bytes "int option"
  | K_md5 "string option"
  | K_adler32 "string option"
  | K_processing_id "int option"
  | K_storage_id "int option"
  | K_retries "int option"
  | K_path "string option"
  | K_expired_at "int option"
  | K_content_metadata pyval

fun set_item :: "content \<Rightarrow> content_item \<Rightarrow> content" where
  "set_item c (K_coll_id v) = c\<lparr>c_coll_id := v\<rparr>"
| "set_item c (K_scope v) = c\<lparr>c_scope := v\<rparr>"
| "set_item c (K_name v) = c\<lparr>c_name := v\<rparr>"
| "set_item c (K_min_id v) = c\<lparr>c_min_id := v\<rparr>"
| "set_item c (K_max_id v) = c\<lparr>c_max_id := v\<rparr>"
| "set_item c (K_content_type v) = c\<lparr>c_content_type := v\<rparr>"
| "set_item c (K_status v) = c\<lparr>c_status := v\<rparr>"
| "set_item c (K_bytes v) = c\<lparr>c_bytes := v\<rparr>"
| "set_item c (K_md5 v) = c\<lparr>c_md5 := v\<rparr>"
| "set_item c (K_adler32 v) = c\<lparr>c_adler32 := v\<rparr>"
| "set_item c (K_processing_id v) = c\<lparr>c_processing_id := v\<rparr>"
| "set_item c (K_storage_id v) = c\<lparr>c_storage_id := v\<rparr>"
| "set_item c (K_retries v) = c\<lparr>c_retries := v\<rparr>"
| "set_item c (K_path v) = c\<lparr>c_path := v\<rparr>"
| "set_item c (K_expired_at v) = c\<lparr>c_expired_at := v\<rparr>"
| "set_item c (K_content_metadata v) = c\<lparr>c_content_metadata := v\<rparr>"

text \<open>
  Lines 128-133: \<open>default_params\<close>, at the time \<open>t\<close> of the call; the expiry is thirty
  days later.
\<close>

definition default_params :: "env \<Rightarrow> int \<Rightarrow> exn + content" where
  "default_params E t =
     (case enum_attr (ContentType E) ''File'' of
        Inl e \<Rightarrow> Inl e
      | Inr file \<Rightarrow>
     (case enum_attr (ContentStatus E) ''New'' of
        Inl e \<Rightarrow> Inl e
      | Inr new \<Rightarrow>
          Inr \<lparr>c_content_id = None, c_coll_id = None, c_scope = None, c_name = None,
               c_min_id = None, c_max_id = None, c_content_type = file, c_status = new,
               c_bytes = Some 0, c_md5 = None, c_adler32 = None, c_processing_id = None,
               c_storage_id = None, c_retries = Some 0, c_path = None,
               c_expired_at = Some (t + 30 * 86400), c_content_metadata = PNone\<rparr>))"

text \<open>\<open>range(0, n, step)\<close> and the slices \<open>params[i:i + bulk_size]\<close> of line 174.\<close>

definition py_range0 :: "nat \<Rightarrow> int \<Rightarrow> exn + nat list" where
  "py_range0 n step =
     (if step = 0 then Inl (ValueError ''range() arg 3 must not be zero'')
      else if step < 0 then Inr []
      else Inr (map (\<lambda>k. k * nat step) [0 ..< (n + nat step - 1) div nat step]))"

definition slice :: "'a list \<Rightarrow> nat \<Rightarrow> int \<Rightarrow> 'a list" where
  "slice xs i bulk_size = take (nat bulk_size) (drop i xs)"

text \<open>The batched insert of one chunk, when the backend carries it out.\<close>

definition insert_contents :: "content list \<Rightarrow> session \<Rightarrow> session" where
  "insert_contents sub_param s = foldl (\<lambda>s' param. insert_content param s') s sub_param"

text \<open>
  \<open>xs[k] = v\<close> for a list \<open>xs\<close> and a string \<open>k\<close>: Python raises TypeError, whatever
  the list and the value.
\<close>

definition list_setitem :: "'a list \<Rightarrow> string \<Rightarrow> 'b \<Rightarrow> exn + 'a list" where
  "list_setitem xs k v = Inl (TypeError ''list indices must be integers or slices, not str'')"

text \<open>
  Lines 180-184, the loop with \<open>returning_id\<close>. Its second statement,
  \<open>sub_param['content_id'] = content_id\<close>, assigns to a string index of \<open>sub_param\<close>,
  which is a list (a slice of \<open>params\<close>); the TypeError is raised before
  \<open>session.execute\<close>, and neither except clause catches it.
\<close>

fun returning_loop :: "content list list \<Rightarrow> int option list \<Rightarrow> session
    \<Rightarrow> (exn + int option list) \<times> session" where
  "returning_loop [] content_ids s = (Inr content_ids, s)"
| "returning_loop (sub_param # rest) content_ids s =
     (case list_setitem sub_param ''content_id'' (None :: int option) of
        Inl e \<Rightarrow> (Inl e, s)
      | Inr sub_param1 \<Rightarrow>
          (case execute (InsertContents sub_param1 True) s of
             (Some (IntegrityError error), s1) \<Rightarrow>
               (Inl (DuplicatedObject (py_format ''Duplicated objects: %s'' [error])), s1)
           | (Some (DatabaseError error), s1) \<Rightarrow> (Inl (DatabaseException error), s1)
           | (Some (DriverError error), s1) \<Rightarrow>
               (Inl (BackendException (DriverError error)), s1)
           | (None, s1) \<Rightarrow>
               returning_loop rest
                 (content_ids @ map (\<lambda>k. Some (seq s1 + 1 + int k)) [0 ..< length sub_param1])
                 (insert_contents sub_param1 s1)))"

text \<open>Lines 186-187, the loop without \<open>returning_id\<close>: one batched insert per chunk.\<close>

fun insert_loop :: "content list list \<Rightarrow> session \<Rightarrow> (exn + unit) \<times> session" where
  "insert_loop [] s = (Inr (), s)"
| "insert_loop (sub_param # rest) s =
     (case execute (InsertContents sub_param False) s of
        (Some (IntegrityError error), s1) \<Rightarrow>
          (Inl (DuplicatedObject (py_format ''Duplicated objects: %s'' [error])), s1)
      | (Some (DatabaseError error), s1) \<Rightarrow> (Inl (DatabaseException error), s1)
      | (Some (DriverError error), s1) \<Rightarrow> (Inl (BackendException (DriverError error)), s1)
      | (None, s1) \<Rightarrow> insert_loop rest (insert_contents sub_param s1))"

text \<open>The body of \<open>add_contents\<close> (lines 157-193), run on the session it is given.\<close>

definition add_contents_body ::
  "env \<Rightarrow> content_item list list \<Rightarrow> bool \<Rightarrow> int \<Rightarrow> session
     \<Rightarrow> (exn + int option list) \<times> session" where
  "add_contents_body E contents returning_id bulk_size s =
     (case default_params E (now s) of
        Inl e \<Rightarrow> (Inl e, s)
      | Inr defaults \<Rightarrow>
     (let params = map (\<lambda>content. content_param E (foldl set_item defaults content)) contents in
      case py_range0 (length params) bulk_size of
        Inl e \<Rightarrow> (Inl e, s)
      | Inr starts \<Rightarrow>
     (let sub_params = map (\<lambda>i. slice params i bulk_size) starts in
      if returning_id then returning_loop sub_params [] s
      else (case insert_loop sub_params s of
              (Inl e, s1) \<Rightarrow> (Inl e, s1)
            | (Inr u, s1) \<Rightarrow> (Inr (replicate (length params) None), s1)))))"

text \<open>The decorated function, as a caller without a session of its own calls it.\<close>

definition add_contents ::
  "env \<Rightarrow> content_item list list \<Rightarrow> bool \<Rightarrow> int \<Rightarrow> session
     \<Rightarrow> (exn + int option list) \<times> session" where
  "add_contents E contents returning_id bulk_size =
     transactional_session (add_contents_body E contents returning_id bulk_size)"

subsection \<open>get_content_id and get_content\<close>

text \<open>SQL equality \<open>column = :param\<close> on the typed columns: never true on NULL.\<close>

definition sql_eq_opt :: "'a option \<Rightarrow> 'a option \<Rightarrow> bool" where
  "sql_eq_opt a b = (a \<noteq> None \<and> a = b)"

definition sql_eq_enum :: "pyenum \<Rightarrow> pyenum \<Rightarrow> bool" where
  "sql_eq_enum a b = (a \<noteq> ENone \<and> a = b)"

fun holds :: "content \<Rightarrow> cond \<Rightarrow> bool" where
  "holds row (Eq_content_id v) = sql_eq_opt (c_content_id row) v"
| "holds row (Eq_coll_id v) = sql_eq_opt (c_coll_id row) v"
| "holds row (Eq_scope v) = sql_eq_opt (c_scope row) v"
| "holds row (Eq_name v) = sql_eq_opt (c_name row) v"
| "holds row (Eq_content_type v) = sql_eq_enum (c_content_type row) v"
| "holds row (Eq_min_id v) = sql_eq_opt (c_min_id row) v"
| "holds row (Eq_max_id v) = sql_eq_opt (c_max_id row) v"

text \<open>
  \<open>session.execute(select ... where ...)\<close> followed by \<open>fetchone()\<close>: the first row of
  the table that satisfies every conjunct, or \<open>None\<close>. A backend error is not caught by
  the functions (\<open>except Exception as error: raise error\<close>).
\<close>

definition fetchone :: "cond list \<Rightarrow> session \<Rightarrow> (exn + content option) \<times> session" where
  "fetchone conds s =
     (case execute (SelectContents conds) s of
        (Some err, s1) \<Rightarrow> (Inl (BackendException err), s1)
      | (None, s1) \<Rightarrow> (Inr (find (\<lambda>row. list_all (holds row) conds) (contents_tbl (db s1))), s1))"

text \<open>
  \<open>get_content_id\<close> (lines 215-250): one of three select statements, by the content
  type given.
\<close>

definition get_content_id ::
  "env \<Rightarrow> int option \<Rightarrow> string option \<Rightarrow> string option \<Rightarrow> pyenum \<Rightarrow> int option \<Rightarrow> int option
     \<Rightarrow> session \<Rightarrow> (exn + int option) \<times> session" where
  "get_content_id E coll_id scope name content_type min_id max_id s =
     (let content_type1 = enum_value content_type in
      case (if content_type1 = ENone
            then Inr [Eq_coll_id coll_id, Eq_scope scope, Eq_name name,
                      Eq_min_id min_id, Eq_max_id max_id]
            else (case enum_attr (ContentType E) ''File'' of
                    Inl e \<Rightarrow> Inl e
                  | Inr file \<Rightarrow>
                      if content_type1 = enum_value file
                      then Inr [Eq_coll_id coll_id, Eq_scope scope, Eq_name name,
                                Eq_content_type content_type1]
                      else Inr [Eq_coll_id coll_id, Eq_scope scope, Eq_name name,
                                Eq_content_type content_type1, Eq_min_id min_id, Eq_max_id max_id]))
      of
        Inl e \<Rightarrow> (Inl e, s)
      | Inr conds \<Rightarrow>
     (case fetchone conds s of
        (Inl e, s1) \<Rightarrow> (Inl e, s1)
      | (Inr None, s1) \<Rightarrow>
          (Inl (NoObject
                  (py_format
                     ''content(coll_id: %s, scope: %s, name: %s, content_type: %s, min_id: %s, max_id: %s) cannot be found''
                     [str_int_option coll_id, str_option scope, str_option name,
                      str_enum ''ContentType'' content_type1, str_int_option min_id,
                      str_int_option max_id])), s1)
      | (Inr (Some row), s1) \<Rightarrow> (Inr (c_content_id row), s1)))"

text \<open>\<open>if not content_id\<close>: the identifier is \<open>None\<close> or zero.\<close>

definition falsy_id :: "int option \<Rightarrow> bool" where
  "falsy_id content_id = (case content_id of None \<Rightarrow> True | Some i \<Rightarrow> i = 0)"

text \<open>Lines 285-291: what \<open>get_content\<close> makes of the row it has read.\<close>

definition content_of_row :: "env \<Rightarrow> content \<Rightarrow> exn + content" where
  "content_of_row E row =
     (case (if c_content_type row \<noteq> ENone then enum_call (ContentType E) (c_content_type row)
            else Inr (c_content_type row)) of
        Inl e \<Rightarrow> Inl e
      | Inr content_type \<Rightarrow>
     (case (if c_status row \<noteq> ENone then enum_call (ContentStatus E) (c_status row)
            else Inr (c_status row)) of
        Inl e \<Rightarrow> Inl e
      | Inr status \<Rightarrow>
     (case (if py_truthy (c_content_metadata row)
            then (case c_content_metadata row of
                    PStr text \<Rightarrow> json_loads E text
                  | _ \<Rightarrow> Inl (TypeError ''the JSON object must be str, bytes or bytearray''))
            else Inr (c_content_metadata row)) of
        Inl e \<Rightarrow> Inl e
      | Inr content_metadata \<Rightarrow>
          Inr (row\<lparr>c_content_type := content_type, c_status := status,
                   c_content_metadata := content_metadata\<rparr>))))"

text \<open>\<open>get_content\<close> (lines 273-298).\<close>

definition get_content ::
  "env \<Rightarrow> int option \<Rightarrow> int option \<Rightarrow> string option \<Rightarrow> string option \<Rightarrow> pyenum \<Rightarrow> int option
     \<Rightarrow> int option \<Rightarrow> session \<Rightarrow> (exn + content) \<times> session" where
  "get_content E content_id coll_id scope name content_type min_id max_id s =
     (case (if falsy_id content_id
            then get_content_id E coll_id scope name content_type min_id max_id s
            else (Inr content_id, s)) of
        (Inl e, s1) \<Rightarrow> (Inl e, s1)
      | (Inr content_id1, s1) \<Rightarrow>
     (case fetchone [Eq_content_id content_id1] s1 of
        (Inl e, s2) \<Rightarrow> (Inl e, s2)
      | (Inr None, s2) \<Rightarrow>
          (Inl (NoObject
                  (py_format
                     ''content(content_id: %s, coll_id: %s, scope: %s, name: %s, content_type: %s, min_id: %s, max_id: %s) cannot be found''
                     [str_int_option content_id1, str_int_option coll_id, str_option scope,
                      str_option name, str_enum ''ContentType'' content_type,
                      str_int_option min_id, str_int_option max_id])), s2)
      | (Inr (Some row), s2) \<Rightarrow>
          (case content_of_row E row of Inl e \<Rightarrow> (Inl e, s2) | Inr content \<Rightarrow> (Inr content, s2))))"

section \<open>Predicates used in the statements of the theorems\<close>

text \<open>The backend carries out every further statement.\<close>

definition accepting :: "session \<Rightarrow> bool" where
  "accepting s = list_all (\<lambda>out. out = None) (outcomes s)"

fun is_dict :: "pyval \<Rightarrow> bool" where
  "is_dict (PDict d) = True"
| "is_dict v = False"

text \<open>
  The workload id that a transform's own metadata carries: the value under
  \<open>workload_id\<close> when the metadata is a dictionary with that key, \<open>None\<close> otherwise.
\<close>

definition workload :: "kwargs \<Rightarrow> pyval" where
  "workload t =
     (case map_of t ''transform_metadata'' of
        Some (PDict md) \<Rightarrow> (case map_of md ''workload_id'' of Some v \<Rightarrow> v | None \<Rightarrow> PNone)
      | _ \<Rightarrow> PNone)"

text \<open>The backend carries out the next statement.\<close>

definition accepts_next :: "session \<Rightarrow> bool" where
  "accepts_next s = (case outcomes s of [] \<Rightarrow> True | out # rest \<Rightarrow> out = None)"

text \<open>
  The identity match of a content lookup as the spec describes it: on
  \<open>(coll_id, scope, name, min_id, max_id)\<close> when no content type is given, on
  \<open>(coll_id, scope, name, content_type)\<close> for the unranged type File (of value \<open>file\<close>),
  and on all six for any other type. Equality is SQL's: a NULL matches nothing.
\<close>

definition identity_match ::
  "int \<Rightarrow> int option \<Rightarrow> string option \<Rightarrow> string option \<Rightarrow> pyenum \<Rightarrow> int option \<Rightarrow> int option
     \<Rightarrow> content \<Rightarrow> bool" where
  "identity_match file coll_id scope name content_type min_id max_id row =
     (sql_eq_opt (c_coll_id row) coll_id \<and> sql_eq_opt (c_scope row) scope
      \<and> sql_eq_opt (c_name row) name
      \<and> (if content_type = ENone
          then sql_eq_opt (c_min_id row) min_id \<and> sql_eq_opt (c_max_id row) max_id
          else if content_type = EInt file
          then sql_eq_enum (c_content_type row) content_type
          else sql_eq_enum (c_content_type row) content_type
               \<and> sql_eq_opt (c_min_id row) min_id \<and> sql_eq_opt (c_max_id row) max_id))"

text \<open>The first error that the backend raises among the next \<open>k\<close> statements, if any.\<close>

definition first_error :: "nat \<Rightarrow> session \<Rightarrow> backend_error option" where
  "first_error k s =
     (case find (\<lambda>out. out \<noteq> None) (take k (outcomes s)) of None \<Rightarrow> None | Some out \<Rightarrow> out)"

section \<open>Concrete inputs\<close>

definition empty_db :: database where
  "empty_db = \<lparr>requests_tbl = [], transforms_tbl = [], collections_tbl = [], contents_tbl = []\<rparr>"

definition empty_session :: session where
  "empty_session = \<lparr>db = empty_db, seq = 0, now = 1000, outcomes = [], issued = []\<rparr>"

definition example_collections :: pyval where
  "example_collections =
     PDict
       [(''input_collections'', PList [PDict [(''scope'', PStr ''data18''), (''name'', PStr ''in1'')]]),
        (''output_collections'', PList [PDict [(''scope'', PStr ''data18''), (''name'', PStr ''out1'')]]),
        (''log_collections'', PList [PDict [(''scope'', PStr ''data18''), (''name'', PStr ''log1'')]])]"

definition valid_transform :: kwargs where
  "valid_transform =
     [(''transform_type'', PStr ''stagein''),
      (''transform_metadata'', PDict [(''workload_id'', PInt 42)]),
      (''collections'', example_collections)]"

definition no_metadata_transform :: kwargs where
  "no_metadata_transform =
     [(''transform_type'', PStr ''stagein''), (''collections'', example_collections)]"

definition bare_transform :: kwargs where
  "bare_transform = [(''transform_type'', PStr ''stagein'')]"

text \<open>
  A backend that refuses the sixth statement with an integrity error: in a batch of two
  copies of \<open>valid_transform\<close>, the insert of the second transform's input collection.
\<close>

definition duplicate_session :: session where
  "duplicate_session =
     empty_session\<lparr>outcomes := [None, None, None, None, None,
                                Some (IntegrityError ''unique constraint violated'')]\<rparr>"

text \<open>
  Three requests at time 1000: one idle, one locked 900 seconds ago and last updated 50
  seconds ago, one locked 100 seconds ago.
\<close>

definition idle_request :: request where
  "idle_request =
     \<lparr>r_request_id = 1, r_request_type = ''StageIn'', r_status = ''New'', r_locking = Idle,
      r_priority = 0, r_workload_id = None, r_request_metadata = PNone, r_updated_at = 500,
      r_locked_at = 0\<rparr>"

definition stale_request :: request where
  "stale_request =
     \<lparr>r_request_id = 2, r_request_type = ''StageIn'', r_status = ''New'', r_locking = Locking,
      r_priority = 0, r_workload_id = None, r_request_metadata = PNone, r_updated_at = 950,
      r_locked_at = 100\<rparr>"

definition fresh_request :: request where
  "fresh_request =
     \<lparr>r_request_id = 3, r_request_type = ''StageIn'', r_status = ''Transforming'',
      r_locking = Locking, r_priority = 0, r_workload_id = None, r_request_metadata = PNone,
      r_updated_at = 900, r_locked_at = 900\<rparr>"

definition requests_session :: session where
  "requests_session =
     empty_session\<lparr>db := empty_db\<lparr>requests_tbl := [idle_request, stale_request, fresh_request]\<rparr>\<rparr>"

text \<open>
  An environment: enum members with distinct values, and a JSON codec that knows the
  one metadata dictionary of the examples.
\<close>

definition example_metadata :: pyval where
  "example_metadata = PDict [(''events'', PInt 10)]"

definition example_env :: env where
  "example_env =
     \<lparr>ContentType = [(''File'', 0), (''Event'', 1), (''PseudoContent'', 2)],
      ContentStatus = [(''New'', 0), (''Processing'', 1), (''Available'', 2), (''Failed'', 3)],
      json_dumps = (\<lambda>v. if v = example_metadata then ''{events: 10}'' else ''null''),
      json_loads = (\<lambda>text. if text = ''{events: 10}'' then Inr example_metadata
                             else if text = ''null'' then Inr PNone
                             else Inl (ValueError ''JSONDecodeError''))\<rparr>"

definition example_content :: content where
  "example_content =
     \<lparr>c_content_id = None, c_coll_id = Some 7, c_scope = Some ''data18'',
      c_name = Some ''file1'', c_min_id = Some 0, c_max_id = Some 100,
      c_content_type = EMember ''Event'' 1, c_status = EMember ''New'' 0, c_bytes = Some 2048,
      c_md5 = None, c_adler32 = Some ''0a1b2c3d'', c_processing_id = None,
      c_storage_id = None, c_retries = Some 0, c_path = None, c_expired_at = Some 3000,
      c_content_metadata = example_metadata\<rparr>"

text \<open>A stored file and a stored event range of the same name.\<close>

definition file_row :: content where
  "file_row =
     \<lparr>c_content_id = Some 1, c_coll_id = Some 7, c_scope = Some ''data18'',
      c_name = Some ''file1'', c_min_id = Some 0, c_max_id = Some 100,
      c_content_type = EInt 0, c_status = EInt 0, c_bytes = Some 2048,
      c_md5 = None, c_adler32 = None, c_processing_id = None,
      c_storage_id = None, c_retries = Some 0, c_path = None, c_expired_at = Some 3000,
      c_content_metadata = PNone\<rparr>"

definition event_row :: content where
  "event_row = file_row\<lparr>c_content_id := Some 2, c_content_type := EInt 1,
                         c_min_id := Some 0, c_max_id := Some 50\<rparr>"

definition contents_session :: session where
  "contents_session =
     empty_session\<lparr>db := empty_db\<lparr>contents_tbl := [file_row, event_row]\<rparr>, seq := 2\<rparr>"

text \<open>A backend that refuses the next statement with an integrity error.\<close>

definition refusing_session :: session where
  "refusing_session =
     empty_session\<lparr>outcomes := [Some (IntegrityError ''unique constraint violated'')]\<rparr>"

text \<open>One content dictionary for \<open>add_contents\<close>, and the defaults at time 1000.\<close>

definition example_item :: "content_item list" where
  "example_item = [K_coll_id (Some 7), K_scope (Some ''data18''), K_name (Some ''file1'')]"

definition example_defaults :: content where
  "example_defaults =
     \<lparr>c_content_id = None, c_coll_id = None, c_scope = None, c_name = None,
      c_min_id = None, c_max_id = None, c_content_type = EMember ''File'' 0,
      c_status = EMember ''New'' 0, c_bytes = Some 0, c_md5 = None, c_adler32 = None,
      c_processing_id = None, c_storage_id = None, c_retries = Some 0, c_path = None,
      c_expired_at = Some 2593000, c_content_metadata = PNone\<rparr>"

text \<open>At time 0, a table with the idle request only.\<close>

definition lone_session :: session where
  "lone_session = empty_session\<lparr>db := empty_db\<lparr>requests_tbl := [idle_request]\<rparr>, now := 0\<rparr>"

section \<open>The session and the transaction\<close>

lemma execute_db [simp]: "db (snd (execute st s)) = db s"
  by (simp add: execute_def split: list.splits)

lemma execute_seq [simp]: "seq (snd (execute st s)) = seq s"
  by (simp add: execute_def split: list.splits)

lemma execute_now [simp]: "now (snd (execute st s)) = now s"
  by (simp add: execute_def split: list.splits)

lemma execute_accepting:
  "accepting s \<Longrightarrow> fst (execute st s) = None \<and> accepting (snd (execute st s))"
  by (cases "outcomes s") (simp_all add: execute_def accepting_def)

lemma transactional_session_Inl:
  "fst (transactional_session f s) = Inl e \<Longrightarrow> db (snd (transactional_session f s)) = db s"
  by (auto simp: transactional_session_def execute_def
           split: prod.splits sum.splits option.splits list.splits)

lemma transactional_session_Inr:
  assumes "fst (transactional_session f s) = Inr r"
  shows "\<exists>s1. f s = (Inr r, s1) \<and> db (snd (transactional_session f s)) = db s1"
  using assms
  by (auto simp: transactional_session_def execute_def
           split: prod.splits sum.splits option.splits list.splits)

lemma execute_frame:
  assumes "execute st s = (r, s1)"
  shows "db s1 = db s" and "seq s1 = seq s" and "now s1 = now s"
  using assms execute_db [of st s] execute_seq [of st s] execute_now [of st s] by simp_all

lemma execute_unchanged:
  assumes "execute st s = (r, s1)"
  shows "db s1 = db s \<and> seq s1 = seq s \<and> now s1 = now s"
  using execute_frame [OF assms] by simp

section \<open>Lemmas on the loops of the commit protocol\<close>

lemma add_transforms_loop_append:
  "add_transforms_loop (xs @ ys) s =
     (case add_transforms_loop xs s of
        (Inl e, s1) \<Rightarrow> (Inl e, s1)
      | (Inr u, s1) \<Rightarrow> add_transforms_loop ys s1)"
  by (induction xs arbitrary: s) (auto split: prod.splits sum.splits)

lemma add_transform_accepting:
  assumes "accepting s"
  shows "\<exists>tid s1. orm_transforms_add_transform kw s = (Inr tid, s1) \<and> accepting s1"
proof (cases "execute (InsertTransform kw) s")
  case (Pair r s1)
  with execute_accepting [OF assms, of "InsertTransform kw"]
  have "r = None" "accepting s1" by simp_all
  with Pair show ?thesis
    by (simp add: orm_transforms_add_transform_def Let_def accepting_def)
qed

lemma add_collection_accepting:
  assumes "accepting s"
  shows "\<exists>cid s1. orm_collections_add_collection kw s = (Inr cid, s1) \<and> accepting s1"
proof (cases "execute (InsertCollection kw) s")
  case (Pair r s1)
  with execute_accepting [OF assms, of "InsertCollection kw"]
  have "r = None" "accepting s1" by simp_all
  with Pair show ?thesis
    by (simp add: orm_collections_add_collection_def Let_def accepting_def)
qed

lemma add_collections_loop_accepting:
  "accepting s \<Longrightarrow> list_all is_dict cs \<Longrightarrow>
   \<exists>ids' s1. add_collections_loop tid cs ids s = (Inr ids', s1) \<and> accepting s1"
proof (induction cs arbitrary: ids s)
  case Nil
  then show ?case by simp
next
  case (Cons c cs)
  from Cons.prems obtain d where c: "c = PDict d" by (cases c) simp_all
  from add_collection_accepting [OF Cons.prems(1)]
  obtain cid s1
    where ins: "orm_collections_add_collection (AList.update ''transform_id'' (PInt tid) d) s
                  = (Inr cid, s1)"
      and acc: "accepting s1" by blast
  from Cons.prems have "list_all is_dict cs" by simp
  from Cons.IH [OF acc this, of "ids @ [cid]"] c ins show ?case by simp
qed

lemma collection_list_nonempty:
  assumes "collection_list c k = Inr xs"
  shows "\<exists>n. py_len c = Inr (Suc n)"
proof (cases c)
  case (PDict d)
  with assms have "map_of d k \<noteq> None"
    by (auto simp: collection_list_def split: option.splits)
  then have "d \<noteq> []" by auto
  with PDict show ?thesis by (cases d) simp_all
qed (use assms in \<open>simp_all add: collection_list_def\<close>)

lemma map_of_delete_other: "k \<noteq> k' \<Longrightarrow> map_of (AList.delete k al) k' = map_of al k'"
  by (simp add: delete_conv')

lemma workload_id_of_missing:
  assumes "map_of t ''transform_metadata'' = None \<or> map_of t ''transform_metadata'' = Some PNone"
  shows "workload_id_of (AList.delete ''collections'' t) =
           Inl (if map_of t ''transform_metadata'' = None then KeyError ''transform_metadata''
                else TypeError ''argument of type NoneType is not iterable'')"
  using assms by (auto simp: workload_id_of_def map_of_delete_other)

section \<open>The rows that one call inserts\<close>

lemma add_collection_Inr:
  assumes "orm_collections_add_collection kw s = (Inr cid, s1)"
  shows "collections_tbl (db s1) = collections_tbl (db s) @ [AList.update ''coll_id'' (PInt cid) kw]"
  using assms
  by (auto simp: orm_collections_add_collection_def Let_def split: prod.splits option.splits
           dest: execute_frame(1))

lemma add_collections_loop_Inr:
  "add_collections_loop tid cs ids s = (Inr ids', s') \<Longrightarrow>
   \<exists>ds new. cs = map PDict ds \<and> length new = length ds \<and> ids' = ids @ new \<and>
     collections_tbl (db s') = collections_tbl (db s) @
       map2 (\<lambda>d cid. AList.update ''coll_id'' (PInt cid) (AList.update ''transform_id'' (PInt tid) d))
         ds new"
proof (induction cs arbitrary: ids s)
  case Nil
  then show ?case by simp
next
  case (Cons c cs)
  from Cons.prems obtain d where c: "c = PDict d" by (cases c) simp_all
  from Cons.prems c obtain cid s1
    where ins: "orm_collections_add_collection (AList.update ''transform_id'' (PInt tid) d) s
                  = (Inr cid, s1)"
      and rest: "add_collections_loop tid cs (ids @ [cid]) s1 = (Inr ids', s')"
    by (auto split: prod.splits sum.splits)
  from Cons.IH [OF rest] obtain ds new
    where ih: "cs = map PDict ds" "length new = length ds" "ids' = (ids @ [cid]) @ new"
      "collections_tbl (db s') = collections_tbl (db s1) @
         map2 (\<lambda>d cid. AList.update ''coll_id'' (PInt cid) (AList.update ''transform_id'' (PInt tid) d))
           ds new" by blast
  show ?case
  proof (intro exI conjI)
    show "c # cs = map PDict (d # ds)" using c ih(1) by simp
    show "length (cid # new) = length (d # ds)" using ih(2) by simp
    show "ids' = ids @ cid # new" using ih(3) by simp
    show "collections_tbl (db s') = collections_tbl (db s) @
       map2 (\<lambda>d cid. AList.update ''coll_id'' (PInt cid) (AList.update ''transform_id'' (PInt tid) d))
         (d # ds) (cid # new)"
      using ih(4) add_collection_Inr [OF ins] by simp
  qed
qed

lemma output_collections_loop_Inr:
  assumes "output_collections_loop t1 tid in_ids log_ids cs s = (Inr u, s')"
      and "cs \<noteq> [] \<Longrightarrow> workload_id_of t1 = Inr wl"
  shows "\<exists>ds new. cs = map PDict ds \<and> length new = length ds \<and>
     collections_tbl (db s') = collections_tbl (db s) @
       map2 (\<lambda>d cid. AList.update ''coll_id'' (PInt cid)
                (AList.update ''coll_metadata'' (output_metadata tid wl in_ids log_ids)
                   (AList.update ''transform_id'' (PInt tid) d)))
         ds new"
  using assms
proof (induction cs arbitrary: s)
  case Nil
  then show ?case by simp
next
  case (Cons c cs)
  from Cons.prems(2) have wl: "workload_id_of t1 = Inr wl" by simp
  from Cons.prems(1) obtain d where c: "c = PDict d" by (cases c) simp_all
  from Cons.prems(1) c wl obtain cid s1
    where ins: "orm_collections_add_collection
                  (AList.update ''coll_metadata'' (output_metadata tid wl in_ids log_ids)
                     (AList.update ''transform_id'' (PInt tid) d)) s = (Inr cid, s1)"
      and rest: "output_collections_loop t1 tid in_ids log_ids cs s1 = (Inr u, s')"
    by (auto split: prod.splits sum.splits)
  from Cons.IH [OF rest] wl obtain ds new
    where ih: "cs = map PDict ds" "length new = length ds"
      "collections_tbl (db s') = collections_tbl (db s1) @
         map2 (\<lambda>d cid. AList.update ''coll_id'' (PInt cid)
                (AList.update ''coll_metadata'' (output_metadata tid wl in_ids log_ids)
                   (AList.update ''transform_id'' (PInt tid) d)))
           ds new" by blast
  show ?case
  proof (intro exI conjI)
    show "c # cs = map PDict (d # ds)" using c ih(1) by simp
    show "length (cid # new) = length (d # ds)" using ih(2) by simp
    show "collections_tbl (db s') = collections_tbl (db s) @
       map2 (\<lambda>d cid. AList.update ''coll_id'' (PInt cid)
                (AList.update ''coll_metadata'' (output_metadata tid wl in_ids log_ids)
                   (AList.update ''transform_id'' (PInt tid) d)))
         (d # ds) (cid # new)"
      using ih(3) add_collection_Inr [OF ins] by simp
  qed
qed

lemma output_collections_loop_workload:
  assumes "output_collections_loop t1 tid in_ids log_ids cs s = (Inr u, s')" and "cs \<noteq> []"
  shows "\<exists>wl. workload_id_of t1 = Inr wl"
  using assms by (cases cs) (auto split: sum.splits prod.splits)

lemma workload_id_of_Inr:
  assumes "workload_id_of t1 = Inr wl"
  shows "wl = workload t1"
proof (cases "map_of t1 ''transform_metadata''")
  case None
  with assms show ?thesis by (simp add: workload_id_of_def)
next
  case (Some md)
  with assms show ?thesis
    by (cases md) (auto simp: workload_id_of_def workload_def split: if_splits option.splits)
qed

lemma add_transform_Inr:
  assumes "orm_transforms_add_transform kw s = (Inr tid, s1)"
  shows "collections_tbl (db s1) = collections_tbl (db s)"
  using assms
  by (auto simp: orm_transforms_add_transform_def Let_def split: prod.splits option.splits
           dest: execute_frame(1))


lemma add_transform_iteration_Inr:
  assumes "add_transform_iteration t s = (Inr u, s')"
  shows "\<exists>c tid ins logs outs in_ids log_ids out_ids.
       map_of t ''collections'' = Some c
     \<and> fst (orm_transforms_add_transform (AList.delete ''collections'' t) s) = Inr tid
     \<and> collection_list c ''input_collections'' = Inr (map PDict ins)
     \<and> collection_list c ''log_collections'' = Inr (map PDict logs)
     \<and> collection_list c ''output_collections'' = Inr (map PDict outs)
     \<and> length in_ids = length ins \<and> length log_ids = length logs \<and> length out_ids = length outs
     \<and> collections_tbl (db s') = collections_tbl (db s)
         @ map2 (\<lambda>d cid. AList.update ''coll_id'' (PInt cid)
                   (AList.update ''transform_id'' (PInt tid) d)) ins in_ids
         @ map2 (\<lambda>d cid. AList.update ''coll_id'' (PInt cid)
                   (AList.update ''transform_id'' (PInt tid) d)) logs log_ids
         @ map2 (\<lambda>d cid. AList.update ''coll_id'' (PInt cid)
                   (AList.update ''coll_metadata'' (output_metadata tid (workload t) in_ids log_ids)
                      (AList.update ''transform_id'' (PInt tid) d))) outs out_ids"
proof -
  let ?t1 = "AList.delete ''collections'' t"
  from assms obtain c tid s1 input_list in_ids s2 log_list log_ids s3 output_list
    where c: "map_of t ''collections'' = Some c"
      and add: "orm_transforms_add_transform ?t1 s = (Inr tid, s1)"
      and il: "collection_list c ''input_collections'' = Inr input_list"
      and iloop: "add_collections_loop tid input_list [] s1 = (Inr in_ids, s2)"
      and ll: "collection_list c ''log_collections'' = Inr log_list"
      and lloop: "add_collections_loop tid log_list [] s2 = (Inr log_ids, s3)"
      and ol: "collection_list c ''output_collections'' = Inr output_list"
      and oloop: "output_collections_loop ?t1 tid in_ids log_ids output_list s3 = (Inr u, s')"
    by (auto simp: add_transform_iteration_def Let_def
             split: option.splits sum.splits prod.splits if_splits)
  from add_collections_loop_Inr [OF iloop] obtain ins new_in
    where ins: "input_list = map PDict ins" "length new_in = length ins" "in_ids = new_in"
      "collections_tbl (db s2) = collections_tbl (db s1) @
         map2 (\<lambda>d cid. AList.update ''coll_id'' (PInt cid)
                 (AList.update ''transform_id'' (PInt tid) d)) ins new_in"
    by auto
  from add_collections_loop_Inr [OF lloop] obtain logs new_log
    where logs: "log_list = map PDict logs" "length new_log = length logs" "log_ids = new_log"
      "collections_tbl (db s3) = collections_tbl (db s2) @
         map2 (\<lambda>d cid. AList.update ''coll_id'' (PInt cid)
                 (AList.update ''transform_id'' (PInt tid) d)) logs new_log"
    by auto
  have wl: "output_list \<noteq> [] \<Longrightarrow> workload_id_of ?t1 = Inr (workload t)"
  proof -
    assume "output_list \<noteq> []"
    from output_collections_loop_workload [OF oloop this]
    obtain wl where w: "workload_id_of ?t1 = Inr wl" by blast
    have "workload ?t1 = workload t" by (simp add: workload_def map_of_delete_other)
    with workload_id_of_Inr [OF w] w show ?thesis by simp
  qed
  from output_collections_loop_Inr [OF oloop wl] obtain outs out_ids
    where outs: "output_list = map PDict outs" "length out_ids = length outs"
      "collections_tbl (db s') = collections_tbl (db s3) @
         map2 (\<lambda>d cid. AList.update ''coll_id'' (PInt cid)
                (AList.update ''coll_metadata'' (output_metadata tid (workload t) in_ids log_ids)
                   (AList.update ''transform_id'' (PInt tid) d))) outs out_ids"
    by blast
  show ?thesis
  proof (intro exI conjI)
    show "map_of t ''collections'' = Some c" by (rule c)
    show "fst (orm_transforms_add_transform ?t1 s) = Inr tid" using add by simp
    show "collection_list c ''input_collections'' = Inr (map PDict ins)" using il ins(1) by simp
    show "collection_list c ''log_collections'' = Inr (map PDict logs)" using ll logs(1) by simp
    show "collection_list c ''output_collections'' = Inr (map PDict outs)" using ol outs(1) by simp
    show "length in_ids = length ins" using ins by simp
    show "length log_ids = length logs" using logs by simp
    show "length out_ids = length outs" by (rule outs(2))
    show "collections_tbl (db s') = collections_tbl (db s)
         @ map2 (\<lambda>d cid. AList.update ''coll_id'' (PInt cid)
                   (AList.update ''transform_id'' (PInt tid) d)) ins in_ids
         @ map2 (\<lambda>d cid. AList.update ''coll_id'' (PInt cid)
                   (AList.update ''transform_id'' (PInt tid) d)) logs log_ids
         @ map2 (\<lambda>d cid. AList.update ''coll_id'' (PInt cid)
                   (AList.update ''coll_metadata'' (output_metadata tid (workload t) in_ids log_ids)
                      (AList.update ''transform_id'' (PInt tid) d))) outs out_ids"
      using outs(3) logs(3,4) ins(3,4) add_transform_Inr [OF add] by simp
  qed
qed

lemma add_transform_iteration_grows:
  assumes "add_transform_iteration t s = (Inr u, s')"
  shows "\<exists>rows. collections_tbl (db s') = collections_tbl (db s) @ rows"
  using add_transform_iteration_Inr [OF assms] by blast

lemma add_transforms_loop_grows:
  "add_transforms_loop ts s = (Inr u, s') \<Longrightarrow>
   \<exists>rows. collections_tbl (db s') = collections_tbl (db s) @ rows"
proof (induction ts arbitrary: s)
  case Nil
  then show ?case by simp
next
  case (Cons t ts)
  from Cons.prems obtain u1 s1
    where it: "add_transform_iteration t s = (Inr u1, s1)"
      and rest: "add_transforms_loop ts s1 = (Inr u, s')"
    by (auto split: prod.splits sum.splits)
  from add_transform_iteration_grows [OF it] Cons.IH [OF rest] show ?case by auto
qed

lemma update_transform_collections:
  assumes "orm_transforms_update_transform tid ps s = (r, s1)"
  shows "collections_tbl (db s1) = collections_tbl (db s)"
  using assms
  by (auto simp: orm_transforms_update_transform_def split: prod.splits option.splits
           dest: execute_frame(1))

lemma extend_transforms_loop_collections:
  "extend_transforms_loop ts s = (r, s') \<Longrightarrow> collections_tbl (db s') = collections_tbl (db s)"
proof (induction ts arbitrary: s)
  case Nil
  then show ?case by simp
next
  case (Cons t ts)
  show ?case
  proof (cases "py_getitem (PDict t) ''transform_id''")
    case (Inl e)
    with Cons.prems show ?thesis by simp
  next
    case (Inr tid)
    obtain r1 s1 where u: "orm_transforms_update_transform tid (AList.delete ''transform_id'' t) s = (r1, s1)"
      by (cases "orm_transforms_update_transform tid (AList.delete ''transform_id'' t) s")
    note c1 = update_transform_collections [OF u]
    show ?thesis
    proof (cases r1)
      case (Inl e)
      with Cons.prems Inr u c1 show ?thesis by simp
    next
      case (Inr u1)
      with Cons.prems \<open>py_getitem (PDict t) ''transform_id'' = Inr tid\<close> u
      have "extend_transforms_loop ts s1 = (r, s')" by simp
      from Cons.IH [OF this] c1 show ?thesis by simp
    qed
  qed
qed

lemma update_request_collections:
  assumes "orm_requests_update_request rid ps s = (r, s1)"
  shows "collections_tbl (db s1) = collections_tbl (db s)"
  using assms
  by (auto simp: orm_requests_update_request_def split: prod.splits option.splits
           dest: execute_frame(1))

text \<open>
  What the payload holds under a key when the loop over it visits dictionaries only: a
  list of these dictionaries, or an empty dictionary or string, which has no element.
\<close>

lemma py_iter_dicts:
  assumes "py_iter v = Inr (map PDict ds)"
  shows "v = PList (map PDict ds) \<or> ds = [] \<and> (v = PDict [] \<or> v = PStr [])"
proof (cases v)
  case (PList xs)
  with assms show ?thesis by simp
next
  case (PDict d)
  with assms have "map (\<lambda>kv. PStr (fst kv)) d = map PDict ds" by simp
  then have "d = [] \<and> ds = []" by (cases d; cases ds) simp_all
  with PDict show ?thesis by simp
next
  case (PStr str)
  with assms have "map (\<lambda>c. PStr [c]) str = map PDict ds" by simp
  then have "str = [] \<and> ds = []" by (cases str; cases ds) simp_all
  with PStr show ?thesis by simp
qed (use assms in simp_all)

lemma collection_list_payload:
  assumes "map_of t ''collections'' = Some c" and "collection_list c k = Inr (map PDict ds)"
  shows "\<exists>cd v. c = PDict cd \<and> map_of cd k = Some v
           \<and> (v = PList (map PDict ds) \<or> ds = [] \<and> (v = PDict [] \<or> v = PStr []))"
proof (cases c)
  case (PDict cd)
  with assms(2) obtain v where v: "map_of cd k = Some v" and it: "py_iter v = Inr (map PDict ds)"
    by (auto simp: collection_list_def split: option.splits)
  from py_iter_dicts [OF it] v PDict show ?thesis by blast
qed (use assms(2) in \<open>simp_all add: collection_list_def\<close>)

section \<open>Lemmas on the leasing engine\<close>

lemma update_request_Inr:
  assumes "orm_requests_update_request rid ps s = (Inr u, s1)"
  shows "requests_tbl (db s1) = map (update_row rid ps (now s)) (requests_tbl (db s))"
    and "now s1 = now s"
  using assms
  by (auto simp: orm_requests_update_request_def split: prod.splits option.splits
           dest: execute_unchanged)

lemma update_request_accepting:
  assumes "accepting s"
  shows "\<exists>s1. orm_requests_update_request rid ps s = (Inr (), s1) \<and> accepting s1"
proof (cases "execute (UpdateRequest rid ps) s")
  case (Pair r s1)
  with execute_accepting [OF assms, of "UpdateRequest rid ps"]
  have "r = None" "accepting s1" by simp_all
  with Pair show ?thesis
    by (simp add: orm_requests_update_request_def accepting_def)
qed

lemma lock_requests_loop_Inr:
  "lock_requests_loop reqs s = (Inr u, s') \<Longrightarrow>
   requests_tbl (db s') =
     map (\<lambda>r. if r_request_id r \<in> r_request_id ` set reqs
               then r\<lparr>r_locking := Locking, r_updated_at := now s,
                      r_locked_at := (if r_locking r = Idle then now s else r_locked_at r)\<rparr>
               else r)
         (requests_tbl (db s))"
proof (induction reqs arbitrary: s)
  case Nil
  then show ?case by simp
next
  case (Cons req reqs)
  from Cons.prems obtain u1 s1
    where upd: "orm_requests_update_request (r_request_id req) [Set_locking Locking] s = (Inr u1, s1)"
      and rest: "lock_requests_loop reqs s1 = (Inr u, s')"
    by (auto split: prod.splits sum.splits)
  note step = update_request_Inr [OF upd]
  from Cons.IH [OF rest] step show ?case
    by (auto simp: update_row_def)
qed

lemma lock_requests_loop_accepting:
  "accepting s \<Longrightarrow> \<exists>s1. lock_requests_loop reqs s = (Inr (), s1) \<and> accepting s1"
proof (induction reqs arbitrary: s)
  case Nil
  then show ?case by simp
next
  case (Cons req reqs)
  from update_request_accepting [OF Cons.prems]
  obtain s1 where "orm_requests_update_request (r_request_id req) [Set_locking Locking] s = (Inr (), s1)"
    and "accepting s1" by blast
  with Cons.IH [of s1] show ?case by simp
qed

text \<open>An update of a locked row does not change the time its lock was acquired.\<close>

lemma update_row_keeps_lease:
  "r_locking r = Locking \<Longrightarrow> r_locked_at (update_row rid ps t r) = r_locked_at r"
  by (simp add: update_row_def)

section \<open>Lemmas on the content store\<close>

lemma fetchone_accepted:
  assumes "accepts_next s"
  shows "fst (fetchone conds s) = Inr (find (\<lambda>row. list_all (holds row) conds) (contents_tbl (db s)))"
  using assms
  by (auto simp: fetchone_def execute_def accepts_next_def split: list.splits)

lemma find_member:
  "distinct (map snd members) \<Longrightarrow> (n, v) \<in> set members \<Longrightarrow>
   find (\<lambda>m. snd m = v) members = Some (n, v)"
proof (induction members)
  case Nil
  then show ?case by simp
next
  case (Cons m members)
  then show ?case by (cases m) (auto simp: rev_image_eqI)
qed

lemma insert_content_db:
  "db (insert_content param s) =
     (db s)\<lparr>contents_tbl := contents_tbl (db s) @ [param\<lparr>c_content_id := Some (seq s + 1)\<rparr>]\<rparr>"
  by (simp add: insert_content_def)

lemma add_content_Inr:
  assumes "fst (add_content E c returning_id s) = Inr r"
  shows "db (snd (add_content E c returning_id s)) =
           (db s)\<lparr>contents_tbl := contents_tbl (db s)
                      @ [(content_param E c)\<lparr>c_content_id := Some (seq s + 1)\<rparr>]\<rparr>"
    and "r = (if returning_id then Some (seq s + 1) else None)"
proof -
  from transactional_session_Inr [OF assms [unfolded add_content_def]]
  obtain sc where body: "add_content_body E c returning_id s = (Inr r, sc)"
    and dbc: "db (snd (add_content E c returning_id s)) = db sc"
    by (auto simp: add_content_def)
  from body obtain s1
    where ex: "execute (InsertContent (content_param E c) returning_id) s = (None, s1)"
      and sc: "sc = insert_content (content_param E c) s1"
      and r: "r = (if returning_id then Some (seq s1 + 1) else None)"
    by (auto simp: add_content_body_def Let_def
             split: prod.splits option.splits backend_error.splits if_splits)
  from execute_unchanged [OF ex] have "db s1 = db s" "seq s1 = seq s" by simp_all
  with dbc sc r show "db (snd (add_content E c returning_id s)) =
           (db s)\<lparr>contents_tbl := contents_tbl (db s)
                      @ [(content_param E c)\<lparr>c_content_id := Some (seq s + 1)\<rparr>]\<rparr>"
    and "r = (if returning_id then Some (seq s + 1) else None)"
    by (simp_all add: insert_content_db)
qed

lemma find_fresh_id:
  assumes "\<forall>row \<in> set rows. c_content_id row \<noteq> Some i"
  shows "find (\<lambda>row. list_all (holds row) [Eq_content_id (Some i)])
           (rows @ [param\<lparr>c_content_id := Some i\<rparr>]) = Some (param\<lparr>c_content_id := Some i\<rparr>)"
  using assms by (induction rows) (auto simp: sql_eq_opt_def)

lemma content_of_row_roundtrip:
  assumes ct: "c_content_type c = EMember n v" "(n, v) \<in> set (ContentType E)"
              "distinct (map snd (ContentType E))"
      and st: "c_status c = EMember n' v'" "(n', v') \<in> set (ContentStatus E)"
              "distinct (map snd (ContentStatus E))"
      and js: "py_truthy (c_content_metadata c) \<Longrightarrow>
                 json_dumps E (c_content_metadata c) \<noteq> []
                 \<and> json_loads E (json_dumps E (c_content_metadata c)) = Inr (c_content_metadata c)"
  shows "content_of_row E ((content_param E c)\<lparr>c_content_id := Some i\<rparr>) = Inr (c\<lparr>c_content_id := Some i\<rparr>)"
proof -
  have a: "enum_call (ContentType E) (EInt v) = Inr (EMember n v)"
    using find_member [OF ct(3) ct(2)] by simp
  have b: "enum_call (ContentStatus E) (EInt v') = Inr (EMember n' v')"
    using find_member [OF st(3) st(2)] by simp
  show ?thesis
  proof (cases "py_truthy (c_content_metadata c)")
    case True
    with js a b ct(1) st(1) show ?thesis
      by (simp add: content_of_row_def content_param_def)
  next
    case False
    with a b ct(1) st(1) show ?thesis
      by (simp add: content_of_row_def content_param_def)
  qed
qed

lemma duplicate_content_message:
  "py_format ''Content coll_id:scope:name(%s:%s:%s) already exists!: %s'' [a, b, c, t]
     = ''Content coll_id:scope:name('' @ a @ '':'' @ b @ '':'' @ c @ '') already exists!: '' @ t"
  by simp

lemma duplicate_objects_message:
  "py_format ''Duplicated objects: %s'' [t] = ''Duplicated objects: '' @ t"
  by simp

lemma ceil_bound:
  assumes "0 < b"
  shows "(n::nat) \<le> (n + b - 1) div b * b"
proof -
  have "(n + b - 1) div b * b + (n + b - 1) mod b = n + b - 1" by simp
  moreover have "(n + b - 1) mod b < b" using assms by simp
  ultimately show ?thesis by linarith
qed

lemma concat_slices:
  "concat (map (\<lambda>k. take b (drop (k * b) xs)) [0..<m]) = take (m * b) xs"
proof (induction m)
  case 0
  then show ?case by simp
next
  case (Suc m)
  have "take (Suc m * b) xs = take (m * b + b) xs" by (simp add: add.commute)
  also have "\<dots> = take (m * b) xs @ take b (drop (m * b) xs)" by (rule take_add)
  finally show ?case using Suc by simp
qed

lemma sub_params_concat:
  assumes "0 < bulk_size" and "py_range0 (length params) bulk_size = Inr starts"
  shows "concat (map (\<lambda>i. slice params i bulk_size) starts) = params"
    and "length (map (\<lambda>i. slice params i bulk_size) starts)
           = (length params + nat bulk_size - 1) div nat bulk_size"
    and "\<forall>sub_param \<in> set (map (\<lambda>i. slice params i bulk_size) starts).
           0 < length sub_param \<and> length sub_param \<le> nat bulk_size"
proof -
  let ?b = "nat bulk_size"
  let ?m = "(length params + ?b - 1) div ?b"
  from assms have starts: "starts = map (\<lambda>k. k * ?b) [0..<?m]"
    by (simp add: py_range0_def)
  have b: "0 < ?b" using assms(1) by simp
  have chunks: "map (\<lambda>i. slice params i bulk_size) starts
                  = map (\<lambda>k. take ?b (drop (k * ?b) params)) [0..<?m]"
    by (simp add: starts slice_def comp_def)
  show "concat (map (\<lambda>i. slice params i bulk_size) starts) = params"
    using concat_slices [of ?b params ?m] ceil_bound [OF b, of "length params"]
    by (simp add: chunks)
  show "length (map (\<lambda>i. slice params i bulk_size) starts) = ?m"
    by (simp add: starts)
  show "\<forall>sub_param \<in> set (map (\<lambda>i. slice params i bulk_size) starts).
           0 < length sub_param \<and> length sub_param \<le> ?b"
  proof
    fix sub_param assume "sub_param \<in> set (map (\<lambda>i. slice params i bulk_size) starts)"
    then obtain k where k: "k < ?m" and sp: "sub_param = take ?b (drop (k * ?b) params)"
      by (auto simp: chunks)
    have "k * ?b < length params"
    proof (rule ccontr)
      assume "\<not> k * ?b < length params"
      then have "length params + ?b - 1 < (k + 1) * ?b" using b by simp
      then have "?m < k + 1" using b by (simp add: div_less_iff_less_mult)
      with k show False by simp
    qed
    with b sp show "0 < length sub_param \<and> length sub_param \<le> ?b" by simp
  qed
qed

lemma insert_content_frame [simp]:
  "outcomes (insert_content param s) = outcomes s"
  "issued (insert_content param s) = issued s"
  by (simp_all add: insert_content_def)

lemma insert_contents_frame [simp]:
  "outcomes (insert_contents params s) = outcomes s"
  "issued (insert_contents params s) = issued s"
  unfolding insert_contents_def by (induction params arbitrary: s) simp_all

lemma first_error_Nil [simp]: "outcomes s = [] \<Longrightarrow> first_error k s = None"
  by (simp add: first_error_def)

lemma first_error_0 [simp]: "first_error 0 s = None"
  by (simp add: first_error_def)

lemma first_error_Suc:
  "outcomes s = out # rest \<Longrightarrow>
   first_error (Suc k) s = (case out of Some err \<Rightarrow> Some err | None \<Rightarrow> first_error k (s\<lparr>outcomes := rest\<rparr>))"
  by (cases out) (simp_all add: first_error_def)

lemma first_error_cong: "outcomes s = outcomes s' \<Longrightarrow> first_error k s = first_error k s'"
  by (simp add: first_error_def)

lemma insert_loop_result:
  "fst (insert_loop batches s) =
     (case first_error (length batches) s of
        None \<Rightarrow> Inr ()
      | Some err \<Rightarrow>
          Inl (case err of
                 IntegrityError t \<Rightarrow> DuplicatedObject (''Duplicated objects: '' @ t)
               | DatabaseError t \<Rightarrow> DatabaseException t
               | DriverError t \<Rightarrow> BackendException (DriverError t)))"
proof (induction batches arbitrary: s)
  case Nil
  then show ?case by simp
next
  case (Cons b batches)
  show ?case
  proof (cases "outcomes s")
    case Nil
    let ?s1 = "insert_contents b (s\<lparr>issued := issued s @ [InsertContents b False]\<rparr>)"
    have "outcomes ?s1 = []" using Nil by simp
    then have "first_error (length batches) ?s1 = None" by simp
    with Cons.IH [of ?s1] Nil show ?thesis by (simp add: execute_def)
  next
    case (Cons out rest)
    show ?thesis
    proof (cases out)
      case None
      let ?s1 = "insert_contents b
                   (s\<lparr>outcomes := rest, issued := issued s @ [InsertContents b False]\<rparr>)"
      have "first_error (length batches) ?s1 = first_error (length batches) (s\<lparr>outcomes := rest\<rparr>)"
        by (rule first_error_cong) simp
      with Cons.IH [of ?s1] Cons None first_error_Suc [OF Cons, of "length batches"]
      show ?thesis by (simp add: execute_def)
    next
      case (Some err)
      with Cons first_error_Suc [OF Cons, of "length batches"] show ?thesis
        by (cases err) (simp_all add: execute_def duplicate_objects_message)
    qed
  qed
qed

lemma insert_loop_accepting:
  "accepting s \<Longrightarrow>
   \<exists>s'. insert_loop batches s = (Inr (), s') \<and> accepting s'
        \<and> issued s' = issued s @ map (\<lambda>b. InsertContents b False) batches"
proof (induction batches arbitrary: s)
  case Nil
  then show ?case by simp
next
  case (Cons b batches)
  obtain r s1 where ex: "execute (InsertContents b False) s = (r, s1)"
    by (cases "execute (InsertContents b False) s")
  with execute_accepting [OF Cons.prems, of "InsertContents b False"]
  have r: "r = None" and acc: "accepting s1" by simp_all
  have iss: "issued s1 = issued s @ [InsertContents b False]"
    using ex by (auto simp: execute_def split: list.splits)
  let ?s2 = "insert_contents b s1"
  have "accepting ?s2" using acc by (simp add: accepting_def)
  from Cons.IH [OF this] ex r iss show ?case by simp
qed

lemma transactional_session_fail:
  "f s = (Inl e, s1) \<Longrightarrow> fst (transactional_session f s) = Inl e"
  by (simp add: transactional_session_def)

lemma transactional_session_accepting:
  assumes "f s = (Inr r, s1)" and "accepting s1"
  shows "\<exists>s2. transactional_session f s = (Inr r, s2) \<and> db s2 = db s1
               \<and> issued s2 = issued s1 @ [Commit] \<and> accepting s2"
proof -
  obtain o' s2 where ex: "execute Commit s1 = (o', s2)" by (cases "execute Commit s1")
  with execute_accepting [OF assms(2), of Commit] have "o' = None" "accepting s2" by simp_all
  moreover have "issued s2 = issued s1 @ [Commit]" "db s2 = db s1"
    using ex by (auto simp: execute_def split: list.splits)
  ultimately show ?thesis using assms(1) ex by (simp add: transactional_session_def)
qed

lemma transactional_session_DuplicatedObject:
  assumes "fst (transactional_session f s) = Inl (DuplicatedObject m)"
  shows "fst (f s) = Inl (DuplicatedObject m)"
proof -
  have ne: "\<And>err. commit_error err \<noteq> DuplicatedObject m"
  proof -
    fix err show "commit_error err \<noteq> DuplicatedObject m" by (cases err) simp_all
  qed
  from assms ne show ?thesis
    by (auto simp: transactional_session_def split: prod.splits sum.splits option.splits)
qed

lemma first_error_1:
  "first_error 1 s = Some err \<longleftrightarrow> (\<exists>rest. outcomes s = Some err # rest)"
  by (cases "outcomes s") (auto simp: first_error_def)

lemma add_content_body_error:
  assumes "outcomes s = Some err # rest"
  shows "fst (add_content_body E c returning_id s) =
           Inl (case err of
                  IntegrityError t \<Rightarrow>
                    DuplicatedObject
                      (''Content coll_id:scope:name('' @ str_int_option (c_coll_id c) @ '':''
                         @ str_option (c_scope c) @ '':'' @ str_option (c_name c)
                         @ '') already exists!: '' @ t)
                | DatabaseError t \<Rightarrow> DatabaseException t
                | DriverError t \<Rightarrow> BackendException (DriverError t))"
  using assms
  by (cases err) (simp_all add: add_content_body_def execute_def Let_def duplicate_content_message)

lemma add_content_body_duplicate:
  assumes "fst (add_content_body E c returning_id s) = Inl (DuplicatedObject m)"
  shows "\<exists>t rest. outcomes s = Some (IntegrityError t) # rest"
  using assms
  by (auto simp: add_content_body_def execute_def Let_def
           split: list.splits option.splits backend_error.splits if_splits)

lemma fst_transactional_session_Inl:
  assumes "fst (f s) = Inl e"
  shows "fst (transactional_session f s) = Inl e"
proof -
  from assms obtain s1 where "f s = (Inl e, s1)" by (cases "f s") simp
  then show ?thesis by (rule transactional_session_fail)
qed

lemma add_contents_body_result:
  assumes "default_params E (now s) = Inr defaults" and "0 < bulk_size"
  shows "fst (add_contents_body E contents False bulk_size s) =
     (case first_error ((length contents + nat bulk_size - 1) div nat bulk_size) s of
        None \<Rightarrow> Inr (replicate (length contents) None)
      | Some err \<Rightarrow>
          Inl (case err of
                 IntegrityError t \<Rightarrow> DuplicatedObject (''Duplicated objects: '' @ t)
               | DatabaseError t \<Rightarrow> DatabaseException t
               | DriverError t \<Rightarrow> BackendException (DriverError t)))"
proof -
  let ?params = "map (\<lambda>content. content_param E (foldl set_item defaults content)) contents"
  let ?starts = "map (\<lambda>k. k * nat bulk_size)
                   [0 ..< (length contents + nat bulk_size - 1) div nat bulk_size]"
  let ?subs = "map (\<lambda>i. slice ?params i bulk_size) ?starts"
  have range: "py_range0 (length ?params) bulk_size = Inr ?starts"
    using assms(2) by (simp add: py_range0_def)
  have len: "length ?subs = (length contents + nat bulk_size - 1) div nat bulk_size" by simp
  have body: "add_contents_body E contents False bulk_size s =
                (case insert_loop ?subs s of
                   (Inl e, s1) \<Rightarrow> (Inl e, s1)
                 | (Inr u, s1) \<Rightarrow> (Inr (replicate (length ?params) None), s1))"
    using assms(1) range by (simp add: add_contents_body_def Let_def)
  show ?thesis
    using insert_loop_result [of ?subs s]
    unfolding body len
    by (auto split: prod.splits sum.splits option.splits)
qed

section \<open>The commit protocol is all or nothing\<close>

text \<open>
  Claim C1. Whenever \<open>update_request_with_transforms\<close> fails, with whatever exception
  (the validation of a transform, a uniqueness violation or any other backend error
  raised by an insert, by an update or by the commit, or an error of a Python operation),
  the tables of the store are those of before the call: every insert and update that the
  call has issued is rolled back.
\<close>

theorem update_request_with_transforms_atomic:
  "fst (update_request_with_transforms request_id parameters transforms_to_add
          transforms_to_extend s) = Inl e \<Longrightarrow>
   db (snd (update_request_with_transforms request_id parameters transforms_to_add
              transforms_to_extend s)) = db s"
  unfolding update_request_with_transforms_def by (rule transactional_session_Inl)

text \<open>
  A batch of two transforms where the backend refuses a collection of the second one:
  the call fails with \<open>DuplicatedObject\<close> and the rows of the first transform are gone.
\<close>

theorem update_request_with_transforms_atomic_witness:
  "fst (update_request_with_transforms 1 [] [valid_transform, valid_transform] [] duplicate_session)
     = Inl (DuplicatedObject ''unique constraint violated'')
   \<and> db (snd (update_request_with_transforms 1 [] [valid_transform, valid_transform] []
                duplicate_session)) = db duplicate_session"
proof -
  have failed: "fst (update_request_with_transforms 1 [] [valid_transform, valid_transform] []
                  duplicate_session) = Inl (DuplicatedObject ''unique constraint violated'')"
    by code_simp
  from update_request_with_transforms_atomic [OF failed] failed
  show ?thesis by (rule conjI [rotated])
qed

text \<open>Without the transaction the rows of the first transform would stay.\<close>

lemma body_leaves_rows_behind:
  "length (collections_tbl (db (snd (update_request_with_transforms_body 1 []
             [valid_transform, valid_transform] [] duplicate_session)))) = 3"
  by code_simp

section \<open>The bulk insert\<close>

text \<open>
  Claim C5, what the code does with \<open>returning_id\<close>. The loop over the chunks
  assigns to \<open>sub_param['content_id']\<close> before the insert, and \<open>sub_param\<close> is a list:
  for one content and \<open>bulk_size\<close> 100 the call raises \<open>TypeError\<close>, before any insert
  is issued, where the claim promises the generated identifier.
\<close>

theorem add_contents_returning_id_raises:
  "add_contents example_env [example_item] True 100 empty_session
     = (Inl (TypeError ''list indices must be integers or slices, not str''), empty_session)"
  by code_simp

text \<open>So it is for every non-empty list of contents and every positive \<open>bulk_size\<close>.\<close>

lemma add_contents_returning_id_fails:
  assumes "default_params E (now s) = Inr defaults" and "0 < bulk_size" and "contents \<noteq> []"
  shows "add_contents E contents True bulk_size s
           = (Inl (TypeError ''list indices must be integers or slices, not str''), s)"
proof -
  let ?params = "map (\<lambda>content. content_param E (foldl set_item defaults content)) contents"
  let ?m = "(length contents + nat bulk_size - 1) div nat bulk_size"
  let ?starts = "map (\<lambda>k. k * nat bulk_size) [0 ..< ?m]"
  have range: "py_range0 (length ?params) bulk_size = Inr ?starts"
    using assms(2) by (simp add: py_range0_def)
  have "0 < ?m"
  proof -
    have "nat bulk_size \<le> length contents + nat bulk_size - 1"
      using assms(3) by (cases contents) simp_all
    moreover have "0 < nat bulk_size" using assms(2) by simp
    ultimately show ?thesis by (simp add: div_greater_zero_iff)
  qed
  then obtain k ks where "[0 ..< ?m] = k # ks" by (cases "[0 ..< ?m]") auto
  then have "add_contents_body E contents True bulk_size s
               = (Inl (TypeError ''list indices must be integers or slices, not str''), s)"
    using assms(1) range by (simp add: add_contents_body_def Let_def list_setitem_def)
  then show ?thesis by (simp add: add_contents_def transactional_session_def)
qed

text \<open>
  Without \<open>returning_id\<close> the claim holds. For a positive \<open>bulk_size\<close> and a backend
  that carries out the statements, the call issues one batched insert per chunk and the
  commit; the chunks are the parameter records in input order, there are
  \<open>ceil(n / bulk_size)\<close> of them, none is empty or longer than \<open>bulk_size\<close>; the call
  returns \<open>n\<close> times \<open>None\<close>.
\<close>

lemma add_contents_batches:
  assumes "default_params E (now s) = Inr defaults" and "0 < bulk_size" and "accepting s"
  shows "\<exists>batches s'.
           add_contents E contents False bulk_size s = (Inr (replicate (length contents) None), s')
         \<and> issued s' = issued s @ map (\<lambda>batch. InsertContents batch False) batches @ [Commit]
         \<and> concat batches = map (\<lambda>content. content_param E (foldl set_item defaults content)) contents
         \<and> length batches = (length contents + nat bulk_size - 1) div nat bulk_size
         \<and> (\<forall>batch \<in> set batches. 0 < length batch \<and> length batch \<le> nat bulk_size)"
proof -
  let ?params = "map (\<lambda>content. content_param E (foldl set_item defaults content)) contents"
  let ?starts = "map (\<lambda>k. k * nat bulk_size)
                   [0 ..< (length contents + nat bulk_size - 1) div nat bulk_size]"
  let ?subs = "map (\<lambda>i. slice ?params i bulk_size) ?starts"
  have range: "py_range0 (length ?params) bulk_size = Inr ?starts"
    using assms(2) by (simp add: py_range0_def)
  note chunks = sub_params_concat [OF assms(2) range]
  from insert_loop_accepting [OF assms(3), of ?subs] obtain s1
    where loop: "insert_loop ?subs s = (Inr (), s1)" and acc: "accepting s1"
      and iss: "issued s1 = issued s @ map (\<lambda>batch. InsertContents batch False) ?subs" by blast
  have body: "add_contents_body E contents False bulk_size s
                = (Inr (replicate (length contents) None), s1)"
    using assms(1) range loop by (simp add: add_contents_body_def Let_def)
  from transactional_session_accepting
         [of "add_contents_body E contents False bulk_size" s, OF body acc] obtain s2
    where call: "add_contents E contents False bulk_size s
                   = (Inr (replicate (length contents) None), s2)"
      and iss2: "issued s2 = issued s1 @ [Commit]"
    by (auto simp: add_contents_def)
  show ?thesis
  proof (intro exI conjI)
    show "add_contents E contents False bulk_size s = (Inr (replicate (length contents) None), s2)"
      by (rule call)
    show "issued s2 = issued s @ map (\<lambda>batch. InsertContents batch False) ?subs @ [Commit]"
      using iss iss2 by simp
    show "concat ?subs = ?params" by (rule chunks(1))
    show "length ?subs = (length contents + nat bulk_size - 1) div nat bulk_size"
      using chunks(2) by simp
    show "\<forall>batch \<in> set ?subs. 0 < length batch \<and> length batch \<le> nat bulk_size"
      by (rule chunks(3))
  qed
qed

text \<open>250 contents with \<open>bulk_size\<close> 100: three batched inserts, 250 times \<open>None\<close>.\<close>

lemma add_contents_250:
  assumes "default_params E (now s) = Inr defaults" and "accepting s" and "length contents = 250"
  shows "\<exists>b1 b2 b3 s'.
           add_contents E contents False 100 s = (Inr (replicate 250 None), s')
         \<and> issued s' = issued s @ [InsertContents b1 False, InsertContents b2 False,
                                    InsertContents b3 False, Commit]
         \<and> b1 @ b2 @ b3 = map (\<lambda>content. content_param E (foldl set_item defaults content)) contents"
proof -
  from add_contents_batches [OF assms(1) _ assms(2), of 100 contents] assms(3)
  obtain batches s'
    where call: "add_contents E contents False 100 s = (Inr (replicate 250 None), s')"
      and iss: "issued s' = issued s @ map (\<lambda>batch. InsertContents batch False) batches @ [Commit]"
      and cat: "concat batches
                  = map (\<lambda>content. content_param E (foldl set_item defaults content)) contents"
      and len: "length batches = 3"
    by auto
  from len obtain b1 b2 b3 where "batches = [b1, b2, b3]"
    by (auto simp: length_Suc_conv numeral_3_eq_3)
  with call iss cat show ?thesis by auto
qed

section \<open>Claiming requests\<close>

text \<open>
  Claim C2. When \<open>get_requests_by_status_type\<close> returns, the list it returns is the
  selection read from the tables of before the call (the rows as they were before any lock
  update; they are not read again). With \<open>locking\<close> the call has updated, in the same
  transaction, every stored request whose identifier is among those returned: its locking
  field is \<open>Locking\<close> (its update timestamp is the time of the call, and so is the
  time its lock was acquired when it was Idle before), and every other row is as before.
  Without \<open>locking\<close> the requests table is as before.
\<close>

theorem claim_returns_snapshot_and_locks:
  assumes "fst (get_requests_by_status_type status request_type time_period locking bulk_size s)
             = Inr reqs"
  shows "reqs = (case bulk_size of
                   None \<Rightarrow> filter (claimable status request_type time_period locking (now s))
                              (requests_tbl (db s))
                 | Some n \<Rightarrow> take n (filter (claimable status request_type time_period locking (now s))
                              (requests_tbl (db s))))
       \<and> requests_tbl (db (snd (get_requests_by_status_type status request_type time_period
                                   locking bulk_size s)))
           = (if locking
              then map (\<lambda>r. if r_request_id r \<in> r_request_id ` set reqs
                             then r\<lparr>r_locking := Locking, r_updated_at := now s,
                                    r_locked_at :=
                                      (if r_locking r = Idle then now s else r_locked_at r)\<rparr>
                             else r)
                       (requests_tbl (db s))
              else requests_tbl (db s))"
proof -
  let ?call = "get_requests_by_status_type status request_type time_period locking bulk_size s"
  from transactional_session_Inr [OF assms [unfolded get_requests_by_status_type_def]]
  obtain sc where body: "get_requests_by_status_type_body status request_type time_period locking
                           bulk_size s = (Inr reqs, sc)"
    and dbc: "db (snd ?call) = db sc"
    by (auto simp: get_requests_by_status_type_def)
  from body obtain s1
    where sel: "orm_requests_get_requests_by_status_type status request_type time_period locking
                  bulk_size s = (Inr reqs, s1)"
      and lock: "if locking then (\<exists>u. lock_requests_loop reqs s1 = (Inr u, sc)) else sc = s1"
    by (auto simp: get_requests_by_status_type_body_def split: prod.splits sum.splits if_splits)
  from sel have s1: "db s1 = db s" "now s1 = now s"
    and reqs: "reqs = (case bulk_size of
                   None \<Rightarrow> filter (claimable status request_type time_period locking (now s))
                              (requests_tbl (db s))
                 | Some n \<Rightarrow> take n (filter (claimable status request_type time_period locking (now s))
                              (requests_tbl (db s))))"
    by (auto simp: orm_requests_get_requests_by_status_type_def Let_def
             split: prod.splits option.splits dest: execute_unchanged)
  show ?thesis
  proof (cases locking)
    case True
    with lock obtain u where "lock_requests_loop reqs s1 = (Inr u, sc)" by auto
    from lock_requests_loop_Inr [OF this] s1 dbc True reqs show ?thesis by simp
  next
    case False
    with lock s1 dbc reqs show ?thesis by simp
  qed
qed

theorem claim_returns_snapshot_and_locks_witness:
  "fst (get_requests_by_status_type [''New''] None None True None requests_session)
     = Inr [idle_request]
   \<and> ([idle_request]
        = (case None of
             None \<Rightarrow> filter (claimable [''New''] None None True (now requests_session))
                        (requests_tbl (db requests_session))
           | Some n \<Rightarrow> take n (filter (claimable [''New''] None None True (now requests_session))
                        (requests_tbl (db requests_session))))
      \<and> requests_tbl (db (snd (get_requests_by_status_type [''New''] None None True None
                                  requests_session)))
          = (if True
             then map (\<lambda>r. if r_request_id r \<in> r_request_id ` set [idle_request]
                            then r\<lparr>r_locking := Locking, r_updated_at := now requests_session,
                                   r_locked_at :=
                                     (if r_locking r = Idle then now requests_session
                                      else r_locked_at r)\<rparr>
                            else r)
                      (requests_tbl (db requests_session))
             else requests_tbl (db requests_session)))"
proof -
  have ok: "fst (get_requests_by_status_type [''New''] None None True None requests_session)
              = Inr [idle_request]"
    by code_simp
  from claim_returns_snapshot_and_locks [OF ok] ok show ?thesis by (rule conjI [rotated])
qed

text \<open>The call returns whenever the backend carries out its statements.\<close>

lemma claim_returns:
  assumes "accepting s"
  shows "\<exists>reqs. fst (get_requests_by_status_type status request_type time_period locking
                       bulk_size s) = Inr reqs"
proof -
  obtain r s1 where ex: "execute (SelectRequests status request_type time_period locking bulk_size) s = (r, s1)"
    by (cases "execute (SelectRequests status request_type time_period locking bulk_size) s")
  with execute_accepting [OF assms, of "SelectRequests status request_type time_period locking bulk_size"]
  have r: "r = None" and acc1: "accepting s1" by simp_all
  obtain reqs where sel: "orm_requests_get_requests_by_status_type status request_type time_period
                     locking bulk_size s = (Inr reqs, s1)"
    using ex r by (simp add: orm_requests_get_requests_by_status_type_def Let_def)
  from lock_requests_loop_accepting [OF acc1, of reqs]
  obtain s2 where l: "lock_requests_loop reqs s1 = (Inr (), s2)" and acc2: "accepting s2" by blast
  have "\<exists>sb. get_requests_by_status_type_body status request_type time_period locking bulk_size s
          = (Inr reqs, sb) \<and> accepting sb"
    using sel l acc1 acc2 by (simp add: get_requests_by_status_type_body_def)
  then obtain sb where b: "get_requests_by_status_type_body status request_type time_period locking
          bulk_size s = (Inr reqs, sb)" and accb: "accepting sb" by blast
  from execute_accepting [OF accb, of Commit] b
  show ?thesis
    by (auto simp: get_requests_by_status_type_def transactional_session_def split: prod.splits option.splits)
qed

text \<open>
  In the example the returned row still shows \<open>Idle\<close>, the stored row \<open>Locking\<close>.
\<close>

lemma claim_example:
  "get_requests_by_status_type [''New''] None None True None requests_session
     = (Inr [idle_request],
        requests_session
          \<lparr>db := empty_db\<lparr>requests_tbl :=
                   [idle_request\<lparr>r_locking := Locking, r_updated_at := 1000,
                                 r_locked_at := 1000\<rparr>,
                    stale_request, fresh_request]\<rparr>,
            issued := [SelectRequests [''New''] None None True None,
                       UpdateRequest 1 [Set_locking Locking], Commit]\<rparr>)"
  by code_simp

section \<open>Where the validation error is raised\<close>

lemma add_transform_iteration_invalid:
  assumes "map_of t ''collections'' = None
           \<or> (\<exists>c. map_of t ''collections'' = Some c \<and> py_len c = Inr 0)"
  shows "add_transform_iteration t s = (Inl (WrongParameterException no_collections_msg), s)"
  using assms by (auto simp: add_transform_iteration_def)

text \<open>
  Claim C3, as the code has it. The validation is the first step of each iteration of
  the loop over \<open>transforms_to_add\<close>. When the transforms \<open>pre\<close> before \<open>t\<close> have been
  processed without error and \<open>t\<close> has no \<open>collections\<close> key or an empty collections
  payload, the call raises \<open>WrongParameterException\<close> in the session \<open>s1\<close> that the
  transforms before \<open>t\<close> have left: no statement is issued for \<open>t\<close> or for a later
  transform, the statements of the earlier transforms have been issued, and the rollback
  restores the tables of before the call.
\<close>

theorem validation_error_at_transform:
  assumes "add_transforms_loop pre s = (Inr u, s1)"
      and "map_of t ''collections'' = None
           \<or> (\<exists>c. map_of t ''collections'' = Some c \<and> py_len c = Inr 0)"
  shows "update_request_with_transforms request_id parameters (pre @ t # post)
           transforms_to_extend s
           = (Inl (WrongParameterException no_collections_msg), s1\<lparr>db := db s\<rparr>)"
  using assms(1) add_transform_iteration_invalid [OF assms(2), of s1]
  by (simp add: update_request_with_transforms_def transactional_session_def
        update_request_with_transforms_body_def add_transforms_loop_append)

theorem validation_error_at_transform_witness:
  "add_transforms_loop [valid_transform] empty_session
     = (Inr (), snd (add_transforms_loop [valid_transform] empty_session))
   \<and> map_of bare_transform ''collections'' = None
   \<and> update_request_with_transforms 1 [] ([valid_transform] @ bare_transform # []) [] empty_session
       = (Inl (WrongParameterException no_collections_msg),
          (snd (add_transforms_loop [valid_transform] empty_session))\<lparr>db := db empty_session\<rparr>)"
proof -
  have pre: "add_transforms_loop [valid_transform] empty_session
               = (Inr (), snd (add_transforms_loop [valid_transform] empty_session))"
    by code_simp
  have bare: "map_of bare_transform ''collections'' = None"
    by (simp add: bare_transform_def)
  from validation_error_at_transform [OF pre disjI1 [OF bare]] pre bare
  show ?thesis by blast
qed

text \<open>
  The claim as the spec states it fails: with a valid transform before the invalid one,
  four insert statements have been issued when the validation error is raised.
\<close>

theorem validation_not_before_statements_counterexample:
  "fst (update_request_with_transforms 1 [] [valid_transform, bare_transform] [] empty_session)
     = Inl (WrongParameterException no_collections_msg)
   \<and> issued (snd (update_request_with_transforms 1 [] [valid_transform, bare_transform] []
                    empty_session))
     = [InsertTransform
          [(''transform_type'', PStr ''stagein''),
           (''transform_metadata'', PDict [(''workload_id'', PInt 42)])],
        InsertCollection
          [(''scope'', PStr ''data18''), (''name'', PStr ''in1''), (''transform_id'', PInt 1)],
        InsertCollection
          [(''scope'', PStr ''data18''), (''name'', PStr ''log1''), (''transform_id'', PInt 1)],
        InsertCollection
          [(''scope'', PStr ''data18''), (''name'', PStr ''out1''), (''transform_id'', PInt 1),
           (''coll_metadata'',
            PDict [(''transform_id'', PInt 1), (''workload_id'', PInt 42),
                   (''input_collections'', PList [PInt 2]),
                   (''log_collections'', PList [PInt 3])])]]"
  by code_simp

section \<open>The derivation record of the output collections\<close>

text \<open>
  Claim C4. When \<open>update_request_with_transforms\<close> succeeds, then for every transform
  \<open>t\<close> of \<open>transforms_to_add\<close> (at any position, after \<open>pre\<close> and before \<open>post\<close>) the
  payload \<open>t['collections']\<close> is a dictionary that holds, under \<open>input_collections\<close>,
  \<open>log_collections\<close> and \<open>output_collections\<close>, lists of dictionaries \<open>ins\<close>, \<open>logs\<close>
  and \<open>outs\<close> (or, in place of an empty list, an empty dictionary or string), and the
  call has appended to the collections table, after the rows \<open>before\<close> of the earlier
  transforms and in this order, one row for each of \<open>ins\<close>, of \<open>logs\<close> and of \<open>outs\<close>.
  Each row is the collection with \<open>transform_id\<close> set to the identifier \<open>tid\<close> that the
  insert of \<open>t\<close> returned and with a generated \<open>coll_id\<close>; every output row has
  \<open>coll_metadata\<close> equal to the dictionary of \<open>transform_id\<close> \<open>tid\<close>, \<open>workload_id\<close>
  the value under \<open>workload_id\<close> in the transform's own \<open>transform_metadata\<close> (\<open>None\<close>
  when that has no such key), \<open>input_collections\<close> the list of the identifiers generated
  for the rows of \<open>ins\<close>, and \<open>log_collections\<close> the list of those generated for the rows
  of \<open>logs\<close>.
\<close>

theorem output_collections_metadata:
  assumes "fst (update_request_with_transforms request_id parameters (pre @ t # post)
                  transforms_to_extend s) = Inr u"
  shows "\<exists>s1 cd iv lv ov tid ins logs outs in_ids log_ids out_ids before after.
       add_transforms_loop pre s = (Inr (), s1)
     \<and> collections_tbl (db s1) = collections_tbl (db s) @ before
     \<and> fst (orm_transforms_add_transform (AList.delete ''collections'' t) s1) = Inr tid
     \<and> map_of t ''collections'' = Some (PDict cd)
     \<and> map_of cd ''input_collections'' = Some iv
     \<and> (iv = PList (map PDict ins) \<or> ins = [] \<and> (iv = PDict [] \<or> iv = PStr []))
     \<and> map_of cd ''log_collections'' = Some lv
     \<and> (lv = PList (map PDict logs) \<or> logs = [] \<and> (lv = PDict [] \<or> lv = PStr []))
     \<and> map_of cd ''output_collections'' = Some ov
     \<and> (ov = PList (map PDict outs) \<or> outs = [] \<and> (ov = PDict [] \<or> ov = PStr []))
     \<and> length in_ids = length ins \<and> length log_ids = length logs \<and> length out_ids = length outs
     \<and> collections_tbl (db (snd (update_request_with_transforms request_id parameters
                                    (pre @ t # post) transforms_to_extend s)))
         = collections_tbl (db s) @ before
         @ map2 (\<lambda>d cid. AList.update ''coll_id'' (PInt cid)
                   (AList.update ''transform_id'' (PInt tid) d)) ins in_ids
         @ map2 (\<lambda>d cid. AList.update ''coll_id'' (PInt cid)
                   (AList.update ''transform_id'' (PInt tid) d)) logs log_ids
         @ map2 (\<lambda>d cid. AList.update ''coll_id'' (PInt cid)
                   (AList.update ''coll_metadata''
                      (PDict [(''transform_id'', PInt tid),
                              (''workload_id'',
                                 case map_of t ''transform_metadata'' of
                                   Some (PDict md) \<Rightarrow>
                                     (case map_of md ''workload_id'' of
                                        Some v \<Rightarrow> v | None \<Rightarrow> PNone)
                                 | _ \<Rightarrow> PNone),
                              (''input_collections'', PList (map PInt in_ids)),
                              (''log_collections'', PList (map PInt log_ids))])
                      (AList.update ''transform_id'' (PInt tid) d))) outs out_ids
         @ after"
proof -
  let ?call = "update_request_with_transforms request_id parameters (pre @ t # post)
                 transforms_to_extend s"
  from transactional_session_Inr [OF assms [unfolded update_request_with_transforms_def]]
  obtain sc where body: "update_request_with_transforms_body request_id parameters (pre @ t # post)
                           transforms_to_extend s = (Inr u, sc)"
    and dbc: "db (snd ?call) = db sc"
    by (auto simp: update_request_with_transforms_def)
  from body obtain ua sa ub sb
    where adds: "add_transforms_loop (pre @ t # post) s = (Inr ua, sa)"
      and exts: "extend_transforms_loop transforms_to_extend sa = (Inr ub, sb)"
      and upd: "orm_requests_update_request request_id parameters sb = (Inr u, sc)"
    by (auto simp: update_request_with_transforms_body_def split: prod.splits sum.splits)
  from adds obtain u1 s1 u2 s2
    where pre: "add_transforms_loop pre s = (Inr u1, s1)"
      and it: "add_transform_iteration t s1 = (Inr u2, s2)"
      and post: "add_transforms_loop post s2 = (Inr ua, sa)"
    by (auto simp: add_transforms_loop_append split: prod.splits sum.splits)
  from add_transforms_loop_grows [OF pre] obtain before
    where before: "collections_tbl (db s1) = collections_tbl (db s) @ before" by blast
  from add_transforms_loop_grows [OF post] obtain after
    where after: "collections_tbl (db sa) = collections_tbl (db s2) @ after" by blast
  have final: "collections_tbl (db (snd ?call)) = collections_tbl (db sa)"
    using dbc update_request_collections [OF upd] extend_transforms_loop_collections [OF exts]
    by simp
  from add_transform_iteration_Inr [OF it] obtain c tid ins logs outs in_ids log_ids out_ids
    where c: "map_of t ''collections'' = Some c"
      and tid: "fst (orm_transforms_add_transform (AList.delete ''collections'' t) s1) = Inr tid"
      and lists: "collection_list c ''input_collections'' = Inr (map PDict ins)"
                 "collection_list c ''log_collections'' = Inr (map PDict logs)"
                 "collection_list c ''output_collections'' = Inr (map PDict outs)"
      and lens: "length in_ids = length ins" "length log_ids = length logs"
                "length out_ids = length outs"
      and rows: "collections_tbl (db s2) = collections_tbl (db s1)
         @ map2 (\<lambda>d cid. AList.update ''coll_id'' (PInt cid)
                   (AList.update ''transform_id'' (PInt tid) d)) ins in_ids
         @ map2 (\<lambda>d cid. AList.update ''coll_id'' (PInt cid)
                   (AList.update ''transform_id'' (PInt tid) d)) logs log_ids
         @ map2 (\<lambda>d cid. AList.update ''coll_id'' (PInt cid)
                   (AList.update ''coll_metadata'' (output_metadata tid (workload t) in_ids log_ids)
                      (AList.update ''transform_id'' (PInt tid) d))) outs out_ids"
    by blast
  from collection_list_payload [OF c lists(1)] obtain cd iv
    where cd: "c = PDict cd" and iv: "map_of cd ''input_collections'' = Some iv"
      and ivs: "iv = PList (map PDict ins) \<or> ins = [] \<and> (iv = PDict [] \<or> iv = PStr [])"
    by blast
  from collection_list_payload [OF c lists(2)] cd obtain lv
    where lv: "map_of cd ''log_collections'' = Some lv"
      and lvs: "lv = PList (map PDict logs) \<or> logs = [] \<and> (lv = PDict [] \<or> lv = PStr [])"
    by auto
  from collection_list_payload [OF c lists(3)] cd obtain ov
    where ov: "map_of cd ''output_collections'' = Some ov"
      and ovs: "ov = PList (map PDict outs) \<or> outs = [] \<and> (ov = PDict [] \<or> ov = PStr [])"
    by auto
  show ?thesis
  proof (intro exI conjI)
    show "add_transforms_loop pre s = (Inr (), s1)" using pre by simp
    show "collections_tbl (db s1) = collections_tbl (db s) @ before" by (rule before)
    show "fst (orm_transforms_add_transform (AList.delete ''collections'' t) s1) = Inr tid"
      by (rule tid)
    show "map_of t ''collections'' = Some (PDict cd)" using c cd by simp
    show "map_of cd ''input_collections'' = Some iv" by (rule iv)
    show "iv = PList (map PDict ins) \<or> ins = [] \<and> (iv = PDict [] \<or> iv = PStr [])"
      by (rule ivs)
    show "map_of cd ''log_collections'' = Some lv" by (rule lv)
    show "lv = PList (map PDict logs) \<or> logs = [] \<and> (lv = PDict [] \<or> lv = PStr [])"
      by (rule lvs)
    show "map_of cd ''output_collections'' = Some ov" by (rule ov)
    show "ov = PList (map PDict outs) \<or> outs = [] \<and> (ov = PDict [] \<or> ov = PStr [])"
      by (rule ovs)
    show "length in_ids = length ins" by (rule lens(1))
    show "length log_ids = length logs" by (rule lens(2))
    show "length out_ids = length outs" by (rule lens(3))
    show "collections_tbl (db (snd ?call))
         = collections_tbl (db s) @ before
         @ map2 (\<lambda>d cid. AList.update ''coll_id'' (PInt cid)
                   (AList.update ''transform_id'' (PInt tid) d)) ins in_ids
         @ map2 (\<lambda>d cid. AList.update ''coll_id'' (PInt cid)
                   (AList.update ''transform_id'' (PInt tid) d)) logs log_ids
         @ map2 (\<lambda>d cid. AList.update ''coll_id'' (PInt cid)
                   (AList.update ''coll_metadata''
                      (PDict [(''transform_id'', PInt tid),
                              (''workload_id'',
                                 case map_of t ''transform_metadata'' of
                                   Some (PDict md) \<Rightarrow>
                                     (case map_of md ''workload_id'' of
                                        Some v \<Rightarrow> v | None \<Rightarrow> PNone)
                                 | _ \<Rightarrow> PNone),
                              (''input_collections'', PList (map PInt in_ids)),
                              (''log_collections'', PList (map PInt log_ids))])
                      (AList.update ''transform_id'' (PInt tid) d))) outs out_ids
         @ after"
      using final after rows before by (simp add: output_metadata_def workload_def)
  qed
qed

text \<open>
  The example: one transform with one input, one log and one output collection and the
  workload id 42. The rows are those of the payload, stamped with the transform id 1;
  the output row names the identifiers of the input row and of the log row.
\<close>

theorem output_collections_metadata_witness:
  "fst (update_request_with_transforms 1 [] ([] @ valid_transform # []) [] empty_session) = Inr ()
   \<and> (\<exists>in_id log_id out_id after.
        collections_tbl (db (snd (update_request_with_transforms 1 []
                                   ([] @ valid_transform # []) [] empty_session)))
          = [[(''scope'', PStr ''data18''), (''name'', PStr ''in1''),
              (''transform_id'', PInt 1), (''coll_id'', PInt in_id)],
             [(''scope'', PStr ''data18''), (''name'', PStr ''log1''),
              (''transform_id'', PInt 1), (''coll_id'', PInt log_id)],
             [(''scope'', PStr ''data18''), (''name'', PStr ''out1''),
              (''transform_id'', PInt 1),
              (''coll_metadata'',
               PDict [(''transform_id'', PInt 1), (''workload_id'', PInt 42),
                      (''input_collections'', PList [PInt in_id]),
                      (''log_collections'', PList [PInt log_id])]),
              (''coll_id'', PInt out_id)]] @ after)"
proof -
  let ?call = "update_request_with_transforms 1 [] ([] @ valid_transform # []) [] empty_session"
  have ok: "fst ?call = Inr ()" by code_simp
  from output_collections_metadata [OF ok]
  obtain s1 cd iv lv ov tid ins logs outs in_ids log_ids out_ids before after
    where pre: "add_transforms_loop [] empty_session = (Inr (), s1)"
      and before: "collections_tbl (db s1) = collections_tbl (db empty_session) @ before"
      and tid: "fst (orm_transforms_add_transform (AList.delete ''collections'' valid_transform) s1)
                  = Inr tid"
      and cd: "map_of valid_transform ''collections'' = Some (PDict cd)"
      and iv: "map_of cd ''input_collections'' = Some iv"
              "iv = PList (map PDict ins) \<or> ins = [] \<and> (iv = PDict [] \<or> iv = PStr [])"
      and lv: "map_of cd ''log_collections'' = Some lv"
              "lv = PList (map PDict logs) \<or> logs = [] \<and> (lv = PDict [] \<or> lv = PStr [])"
      and ov: "map_of cd ''output_collections'' = Some ov"
              "ov = PList (map PDict outs) \<or> outs = [] \<and> (ov = PDict [] \<or> ov = PStr [])"
      and lens: "length in_ids = length ins" "length log_ids = length logs"
                "length out_ids = length outs"
      and tbl: "collections_tbl (db (snd ?call))
         = collections_tbl (db empty_session) @ before
         @ map2 (\<lambda>d cid. AList.update ''coll_id'' (PInt cid)
                   (AList.update ''transform_id'' (PInt tid) d)) ins in_ids
         @ map2 (\<lambda>d cid. AList.update ''coll_id'' (PInt cid)
                   (AList.update ''transform_id'' (PInt tid) d)) logs log_ids
         @ map2 (\<lambda>d cid. AList.update ''coll_id'' (PInt cid)
                   (AList.update ''coll_metadata''
                      (PDict [(''transform_id'', PInt tid),
                              (''workload_id'',
                                 case map_of valid_transform ''transform_metadata'' of
                                   Some (PDict md) \<Rightarrow>
                                     (case map_of md ''workload_id'' of
                                        Some v \<Rightarrow> v | None \<Rightarrow> PNone)
                                 | _ \<Rightarrow> PNone),
                              (''input_collections'', PList (map PInt in_ids)),
                              (''log_collections'', PList (map PInt log_ids))])
                      (AList.update ''transform_id'' (PInt tid) d))) outs out_ids
         @ after"
    by blast
  from pre have s1: "s1 = empty_session" by simp
  have empty: "collections_tbl (db empty_session) = []"
    by (simp add: empty_session_def empty_db_def)
  from before s1 empty have b: "before = []" by simp
  have "fst (orm_transforms_add_transform (AList.delete ''collections'' valid_transform)
               empty_session) = Inr 1"
    by code_simp
  with tid s1 have t1: "tid = 1" by simp
  from cd have cd': "cd =
       [(''input_collections'', PList [PDict [(''scope'', PStr ''data18''), (''name'', PStr ''in1'')]]),
        (''output_collections'', PList [PDict [(''scope'', PStr ''data18''), (''name'', PStr ''out1'')]]),
        (''log_collections'', PList [PDict [(''scope'', PStr ''data18''), (''name'', PStr ''log1'')]])]"
    by (simp add: valid_transform_def example_collections_def)
  from iv cd' have ins: "ins = [[(''scope'', PStr ''data18''), (''name'', PStr ''in1'')]]"
    by (cases ins) auto
  from lv cd' have logs: "logs = [[(''scope'', PStr ''data18''), (''name'', PStr ''log1'')]]"
    by (cases logs) auto
  from ov cd' have outs: "outs = [[(''scope'', PStr ''data18''), (''name'', PStr ''out1'')]]"
    by (cases outs) auto
  from lens(1) ins obtain in_id where in_ids: "in_ids = [in_id]"
    by (cases in_ids) auto
  from lens(2) logs obtain log_id where log_ids: "log_ids = [log_id]"
    by (cases log_ids) auto
  from lens(3) outs obtain out_id where out_ids: "out_ids = [out_id]"
    by (cases out_ids) auto
  have wl: "(case map_of valid_transform ''transform_metadata'' of
               Some (PDict md) \<Rightarrow> (case map_of md ''workload_id'' of Some v \<Rightarrow> v | None \<Rightarrow> PNone)
             | _ \<Rightarrow> PNone) = PInt 42"
    by (simp add: valid_transform_def)
  have "collections_tbl (db (snd ?call))
          = [[(''scope'', PStr ''data18''), (''name'', PStr ''in1''),
              (''transform_id'', PInt 1), (''coll_id'', PInt in_id)],
             [(''scope'', PStr ''data18''), (''name'', PStr ''log1''),
              (''transform_id'', PInt 1), (''coll_id'', PInt log_id)],
             [(''scope'', PStr ''data18''), (''name'', PStr ''out1''),
              (''transform_id'', PInt 1),
              (''coll_metadata'',
               PDict [(''transform_id'', PInt 1), (''workload_id'', PInt 42),
                      (''input_collections'', PList [PInt in_id]),
                      (''log_collections'', PList [PInt log_id])]),
              (''coll_id'', PInt out_id)]] @ after"
    unfolding tbl wl by (simp add: empty b t1 ins logs outs in_ids log_ids out_ids)
  with ok show ?thesis by blast
qed

text \<open>The rows of the committed example, evaluated.\<close>

lemma committed_rows:
  "collections_tbl (db (snd (update_request_with_transforms 1 [] [valid_transform] [] empty_session)))
     = [[(''scope'', PStr ''data18''), (''name'', PStr ''in1''),
         (''transform_id'', PInt 1), (''coll_id'', PInt 2)],
        [(''scope'', PStr ''data18''), (''name'', PStr ''log1''),
         (''transform_id'', PInt 1), (''coll_id'', PInt 3)],
        [(''scope'', PStr ''data18''), (''name'', PStr ''out1''),
         (''transform_id'', PInt 1),
         (''coll_metadata'',
          PDict [(''transform_id'', PInt 1), (''workload_id'', PInt 42),
                 (''input_collections'', PList [PInt 2]),
                 (''log_collections'', PList [PInt 3])]),
         (''coll_id'', PInt 4)]]"
  by code_simp

section \<open>The content lookup\<close>

text \<open>
  Claim C6. Let the enum have a member File and the backend carry out the select. Then
  \<open>get_content_id\<close> returns the identifier of the first stored content that matches
  on \<open>(coll_id, scope, name, min_id, max_id)\<close> when no content type is given, on
  \<open>(coll_id, scope, name, content_type)\<close> when the content type is File (as a member or
  as its value; \<open>min_id\<close> and \<open>max_id\<close> are not compared), and on these four and
  \<open>min_id\<close> and \<open>max_id\<close> for any other content type; when no stored content
  matches, it raises \<open>NoObject\<close>.
\<close>

theorem get_content_id_identity_match:
  assumes "map_of (ContentType E) ''File'' = Some file"
      and "accepts_next s"
  shows "(\<forall>row. find (identity_match file coll_id scope name (enum_value content_type) min_id max_id)
                   (contents_tbl (db s)) = Some row
            \<longrightarrow> fst (get_content_id E coll_id scope name content_type min_id max_id s)
                  = Inr (c_content_id row))
       \<and> (find (identity_match file coll_id scope name (enum_value content_type) min_id max_id)
                   (contents_tbl (db s)) = None
            \<longrightarrow> (\<exists>msg. fst (get_content_id E coll_id scope name content_type min_id max_id s)
                         = Inl (NoObject msg)))"
proof -
  let ?ct = "enum_value content_type"
  let ?conds = "if ?ct = ENone
            then [Eq_coll_id coll_id, Eq_scope scope, Eq_name name, Eq_min_id min_id, Eq_max_id max_id]
            else if ?ct = EInt file
                 then [Eq_coll_id coll_id, Eq_scope scope, Eq_name name, Eq_content_type ?ct]
                 else [Eq_coll_id coll_id, Eq_scope scope, Eq_name name,
                       Eq_content_type ?ct, Eq_min_id min_id, Eq_max_id max_id]"
  have same: "(\<lambda>row. list_all (holds row) ?conds)
                = identity_match file coll_id scope name ?ct min_id max_id"
    by (rule ext) (simp add: identity_match_def)
  obtain r s1 where f: "fetchone ?conds s = (r, s1)" by (cases "fetchone ?conds s")
  with fetchone_accepted [OF assms(2), of ?conds] same
  have r: "r = Inr (find (identity_match file coll_id scope name ?ct min_id max_id)
                      (contents_tbl (db s)))" by simp
  have call: "get_content_id E coll_id scope name content_type min_id max_id s =
     (case fetchone ?conds s of
        (Inl e, s1) \<Rightarrow> (Inl e, s1)
      | (Inr None, s1) \<Rightarrow>
          (Inl (NoObject
                  (py_format
                     ''content(coll_id: %s, scope: %s, name: %s, content_type: %s, min_id: %s, max_id: %s) cannot be found''
                     [str_int_option coll_id, str_option scope, str_option name,
                      str_enum ''ContentType'' ?ct, str_int_option min_id,
                      str_int_option max_id])), s1)
      | (Inr (Some row), s1) \<Rightarrow> (Inr (c_content_id row), s1))"
    using assms(1) by (simp add: get_content_id_def Let_def enum_attr_def)
  show ?thesis
    unfolding call f r by (auto split: option.splits)
qed

theorem get_content_id_identity_match_witness:
  "map_of (ContentType example_env) ''File'' = Some 0
   \<and> accepts_next contents_session
   \<and> find (identity_match 0 (Some 7) (Some ''data18'') (Some ''file1'')
              (enum_value (EMember ''File'' 0)) (Some 5) (Some 6))
        (contents_tbl (db contents_session)) = Some file_row
   \<and> fst (get_content_id example_env (Some 7) (Some ''data18'') (Some ''file1'')
             (EMember ''File'' 0) (Some 5) (Some 6) contents_session)
        = Inr (c_content_id file_row)
   \<and> find (identity_match 0 (Some 7) (Some ''data18'') (Some ''file1'')
              (enum_value (EMember ''Event'' 1)) (Some 5) (Some 6))
        (contents_tbl (db contents_session)) = None
   \<and> (\<exists>msg. fst (get_content_id example_env (Some 7) (Some ''data18'') (Some ''file1'')
                   (EMember ''Event'' 1) (Some 5) (Some 6) contents_session)
              = Inl (NoObject msg))"
proof -
  have has_file: "map_of (ContentType example_env) ''File'' = Some 0"
    by (simp add: example_env_def)
  have acc: "accepts_next contents_session"
    by (simp add: accepts_next_def contents_session_def empty_session_def)
  have found: "find (identity_match 0 (Some 7) (Some ''data18'') (Some ''file1'')
                       (enum_value (EMember ''File'' 0)) (Some 5) (Some 6))
                 (contents_tbl (db contents_session)) = Some file_row"
    by code_simp
  have missing: "find (identity_match 0 (Some 7) (Some ''data18'') (Some ''file1'')
                         (enum_value (EMember ''Event'' 1)) (Some 5) (Some 6))
                   (contents_tbl (db contents_session)) = None"
    by code_simp
  from get_content_id_identity_match [OF has_file acc] found
  have "fst (get_content_id example_env (Some 7) (Some ''data18'') (Some ''file1'')
               (EMember ''File'' 0) (Some 5) (Some 6) contents_session)
          = Inr (c_content_id file_row)" by blast
  moreover from get_content_id_identity_match [OF has_file acc] missing
  have "\<exists>msg. fst (get_content_id example_env (Some 7) (Some ''data18'') (Some ''file1'')
                     (EMember ''Event'' 1) (Some 5) (Some 6) contents_session)
                = Inl (NoObject msg)" by blast
  ultimately show ?thesis using has_file acc found missing by blast
qed

text \<open>
  In the example a file and an event range of the same name are stored. The lookup of
  the file ignores the range given; the lookup of the event range needs the exact range.
\<close>

lemma get_content_id_examples:
  "fst (get_content_id example_env (Some 7) (Some ''data18'') (Some ''file1'')
          (EMember ''File'' 0) (Some 5) (Some 6) contents_session) = Inr (Some 1)"
  "fst (get_content_id example_env (Some 7) (Some ''data18'') (Some ''file1'')
          (EMember ''Event'' 1) (Some 0) (Some 50) contents_session) = Inr (Some 2)"
  "fst (get_content_id example_env (Some 7) (Some ''data18'') (Some ''file1'')
          (EMember ''Event'' 1) (Some 0) (Some 51) contents_session)
     = Inl (NoObject
         ''content(coll_id: 7, scope: data18, name: file1, content_type: 1, min_id: 0, max_id: 51) cannot be found'')"
  "fst (get_content_id example_env (Some 7) (Some ''data18'') (Some ''file1'')
          ENone (Some 0) (Some 50) contents_session) = Inr (Some 2)"
  by code_simp+

section \<open>The unguarded read of the transform metadata\<close>

text \<open>
  Claim C10. Let the transforms before \<open>t\<close> be processed without error and the backend
  carry out every further statement, and let \<open>t\<close> have a collections payload whose
  input and log collections are dictionaries and whose output collections start with a
  dictionary. Then \<open>t\<close> passes the validation (its payload has a positive length), and
  if \<open>t\<close> has no \<open>transform_metadata\<close> key the call fails with \<open>KeyError\<close>, if that
  entry is \<open>None\<close> it fails with \<open>TypeError\<close>: an untyped error, not
  \<open>WrongParameterException\<close>.
\<close>

theorem missing_transform_metadata_untyped_error:
  assumes pre: "add_transforms_loop pre s = (Inr u, s1)"
      and acc: "accepting s1"
      and colls: "map_of t ''collections'' = Some c"
      and ins: "collection_list c ''input_collections'' = Inr ins" "list_all is_dict ins"
      and logs: "collection_list c ''log_collections'' = Inr logs" "list_all is_dict logs"
      and outs: "collection_list c ''output_collections'' = Inr (out # outs)" "is_dict out"
      and md: "map_of t ''transform_metadata'' = None
               \<or> map_of t ''transform_metadata'' = Some PNone"
  shows "(\<exists>n. py_len c = Inr (Suc n))
       \<and> fst (update_request_with_transforms request_id parameters (pre @ t # post)
                transforms_to_extend s)
           = Inl (if map_of t ''transform_metadata'' = None then KeyError ''transform_metadata''
                  else TypeError ''argument of type NoneType is not iterable'')"
proof -
  let ?t1 = "AList.delete ''collections'' t"
  let ?err = "if map_of t ''transform_metadata'' = None then KeyError ''transform_metadata''
              else TypeError ''argument of type NoneType is not iterable''"
  from collection_list_nonempty [OF ins(1)] obtain n where len: "py_len c = Inr (Suc n)" by blast
  from add_transform_accepting [OF acc] obtain tid s2
    where t2: "orm_transforms_add_transform ?t1 s1 = (Inr tid, s2)" and acc2: "accepting s2"
    by blast
  from add_collections_loop_accepting [OF acc2 ins(2)] obtain in_ids s3
    where t3: "add_collections_loop tid ins [] s2 = (Inr in_ids, s3)" and acc3: "accepting s3"
    by blast
  from add_collections_loop_accepting [OF acc3 logs(2)] obtain log_ids s4
    where t4: "add_collections_loop tid logs [] s3 = (Inr log_ids, s4)" and acc4: "accepting s4"
    by blast
  from outs(2) obtain d where out: "out = PDict d" by (cases out) simp_all
  have loop: "output_collections_loop ?t1 tid in_ids log_ids (out # outs) s4 = (Inl ?err, s4)"
    using workload_id_of_missing [OF md] out by simp
  have iter: "add_transform_iteration t s1 = (Inl ?err, s4)"
    using colls len t2 ins(1) t3 logs(1) t4 outs(1) loop
    by (simp add: add_transform_iteration_def Let_def)
  have "update_request_with_transforms_body request_id parameters (pre @ t # post)
          transforms_to_extend s = (Inl ?err, s4)"
    using pre iter by (simp add: update_request_with_transforms_body_def add_transforms_loop_append)
  then have "fst (update_request_with_transforms request_id parameters (pre @ t # post)
                transforms_to_extend s) = Inl ?err"
    by (simp add: update_request_with_transforms_def transactional_session_def)
  with len show ?thesis by blast
qed

theorem missing_transform_metadata_untyped_error_witness:
  "add_transforms_loop [] empty_session = (Inr (), empty_session)
   \<and> accepting empty_session
   \<and> map_of no_metadata_transform ''collections'' = Some example_collections
   \<and> collection_list example_collections ''input_collections''
       = Inr [PDict [(''scope'', PStr ''data18''), (''name'', PStr ''in1'')]]
   \<and> list_all is_dict [PDict [(''scope'', PStr ''data18''), (''name'', PStr ''in1'')]]
   \<and> collection_list example_collections ''log_collections''
       = Inr [PDict [(''scope'', PStr ''data18''), (''name'', PStr ''log1'')]]
   \<and> list_all is_dict [PDict [(''scope'', PStr ''data18''), (''name'', PStr ''log1'')]]
   \<and> collection_list example_collections ''output_collections''
       = Inr (PDict [(''scope'', PStr ''data18''), (''name'', PStr ''out1'')] # [])
   \<and> is_dict (PDict [(''scope'', PStr ''data18''), (''name'', PStr ''out1'')])
   \<and> map_of no_metadata_transform ''transform_metadata'' = None
   \<and> (\<exists>n. py_len example_collections = Inr (Suc n))
   \<and> fst (update_request_with_transforms 1 [] ([] @ no_metadata_transform # []) [] empty_session)
       = Inl (KeyError ''transform_metadata'')"
proof -
  have pre: "add_transforms_loop [] empty_session = (Inr (), empty_session)" by simp
  have acc: "accepting empty_session" by (simp add: accepting_def empty_session_def)
  have colls: "map_of no_metadata_transform ''collections'' = Some example_collections"
    by (simp add: no_metadata_transform_def)
  have ins: "collection_list example_collections ''input_collections''
               = Inr [PDict [(''scope'', PStr ''data18''), (''name'', PStr ''in1'')]]"
    by (simp add: collection_list_def example_collections_def)
  have ins_d: "list_all is_dict [PDict [(''scope'', PStr ''data18''), (''name'', PStr ''in1'')]]"
    by simp
  have logs: "collection_list example_collections ''log_collections''
               = Inr [PDict [(''scope'', PStr ''data18''), (''name'', PStr ''log1'')]]"
    by (simp add: collection_list_def example_collections_def)
  have logs_d: "list_all is_dict [PDict [(''scope'', PStr ''data18''), (''name'', PStr ''log1'')]]"
    by simp
  have outs: "collection_list example_collections ''output_collections''
               = Inr (PDict [(''scope'', PStr ''data18''), (''name'', PStr ''out1'')] # [])"
    by (simp add: collection_list_def example_collections_def)
  have out_d: "is_dict (PDict [(''scope'', PStr ''data18''), (''name'', PStr ''out1'')])"
    by simp
  have md: "map_of no_metadata_transform ''transform_metadata'' = None"
    by (simp add: no_metadata_transform_def)
  from missing_transform_metadata_untyped_error
         [OF pre acc colls ins ins_d logs logs_d outs out_d disjI1 [OF md], of 1 "[]" "[]" "[]"]
  have "(\<exists>n. py_len example_collections = Inr (Suc n))
        \<and> fst (update_request_with_transforms 1 [] ([] @ no_metadata_transform # []) []
                 empty_session) = Inl (KeyError ''transform_metadata'')"
    using md by simp
  with pre acc colls ins ins_d logs logs_d outs out_d md show ?thesis by blast
qed

section \<open>Reclaiming expired locks\<close>

text \<open>
  Claim C7. When \<open>clean_locking\<close> returns, the requests table has the rows of before
  in the same order, where exactly the rows that were \<open>Locking\<close> with a lock acquired
  more than \<open>time_period\<close> seconds before the time of the call have their locking field
  reset to \<open>Idle\<close>; every other row (locked for \<open>time_period\<close> seconds or less, or not
  locked) is equal to what it was.
\<close>

theorem clean_locking_resets_expired:
  assumes "fst (clean_locking time_period s) = Inr u"
  shows "length (requests_tbl (db (snd (clean_locking time_period s)))) = length (requests_tbl (db s))
       \<and> (\<forall>i < length (requests_tbl (db s)).
            requests_tbl (db (snd (clean_locking time_period s))) ! i
              = (if r_locking (requests_tbl (db s) ! i) = Locking
                    \<and> time_period < now s - r_locked_at (requests_tbl (db s) ! i)
                 then (requests_tbl (db s) ! i)\<lparr>r_locking := Idle\<rparr>
                 else requests_tbl (db s) ! i))"
proof -
  from transactional_session_Inr [OF assms [unfolded clean_locking_def]]
  obtain sc where body: "orm_requests_clean_locking time_period s = (Inr u, sc)"
    and dbc: "db (snd (clean_locking time_period s)) = db sc"
    by (auto simp: clean_locking_def)
  from body have "requests_tbl (db sc) =
      map (\<lambda>r. if lock_expired time_period (now s) r then r\<lparr>r_locking := Idle\<rparr> else r)
        (requests_tbl (db s))"
    by (auto simp: orm_requests_clean_locking_def split: prod.splits option.splits
             dest: execute_unchanged)
  with dbc show ?thesis by (simp add: lock_expired_def)
qed

theorem clean_locking_resets_expired_witness:
  "fst (clean_locking 500 requests_session) = Inr ()
   \<and> length (requests_tbl (db (snd (clean_locking 500 requests_session))))
       = length (requests_tbl (db requests_session))
   \<and> requests_tbl (db (snd (clean_locking 500 requests_session))) ! 1
       = (requests_tbl (db requests_session) ! 1)\<lparr>r_locking := Idle\<rparr>
   \<and> requests_tbl (db (snd (clean_locking 500 requests_session))) ! 2
       = requests_tbl (db requests_session) ! 2"
proof -
  have ok: "fst (clean_locking 500 requests_session) = Inr ()" by code_simp
  have tbl: "requests_tbl (db requests_session) = [idle_request, stale_request, fresh_request]"
    by (simp add: requests_session_def empty_db_def)
  have t: "now requests_session = 1000"
    by (simp add: requests_session_def empty_session_def)
  note swept = clean_locking_resets_expired [OF ok]
  from swept have len: "length (requests_tbl (db (snd (clean_locking 500 requests_session))))
                          = length (requests_tbl (db requests_session))" by blast
  from swept have "1 < length (requests_tbl (db requests_session)) \<longrightarrow>
      requests_tbl (db (snd (clean_locking 500 requests_session))) ! 1
        = (if r_locking (requests_tbl (db requests_session) ! 1) = Locking
              \<and> 500 < now requests_session - r_locked_at (requests_tbl (db requests_session) ! 1)
           then (requests_tbl (db requests_session) ! 1)\<lparr>r_locking := Idle\<rparr>
           else requests_tbl (db requests_session) ! 1)" by blast
  then have stale: "requests_tbl (db (snd (clean_locking 500 requests_session))) ! 1
                      = (requests_tbl (db requests_session) ! 1)\<lparr>r_locking := Idle\<rparr>"
    by (simp add: tbl t stale_request_def)
  from swept have "2 < length (requests_tbl (db requests_session)) \<longrightarrow>
      requests_tbl (db (snd (clean_locking 500 requests_session))) ! 2
        = (if r_locking (requests_tbl (db requests_session) ! 2) = Locking
              \<and> 500 < now requests_session - r_locked_at (requests_tbl (db requests_session) ! 2)
           then (requests_tbl (db requests_session) ! 2)\<lparr>r_locking := Idle\<rparr>
           else requests_tbl (db requests_session) ! 2)" by blast
  then have fresh: "requests_tbl (db (snd (clean_locking 500 requests_session))) ! 2
                      = requests_tbl (db requests_session) ! 2"
    by (simp add: tbl t fresh_request_def)
  from ok len stale fresh show ?thesis by blast
qed

text \<open>
  In the example the lock that was acquired 900 seconds ago is reset, although its row was
  updated 50 seconds ago; the lock that was acquired 100 seconds ago is kept.
\<close>

lemma clean_locking_example:
  "requests_tbl (db (snd (clean_locking 500 requests_session)))
     = [idle_request, stale_request\<lparr>r_locking := Idle\<rparr>, fresh_request]"
  by code_simp

text \<open>
  The lease is not renewed by an update of its holder: a request claimed at time 0 and
  updated at time 900 is reclaimed by the sweep of time 1000 with a period of 500.
\<close>

lemma lease_not_renewed_example:
  "requests_tbl (db (snd (clean_locking 500
      ((snd (update_request_with_transforms 1 [Set_status ''Transforming''] [] []
         ((snd (get_requests_by_status_type [''New''] None None True None lone_session))
            \<lparr>now := 900\<rparr>)))
         \<lparr>now := 1000\<rparr>))))
     = [idle_request\<lparr>r_status := ''Transforming'', r_locking := Idle, r_updated_at := 900,
                     r_locked_at := 0\<rparr>]"
  by code_simp

section \<open>Round trip of a content\<close>

text \<open>
  Claim C8. Let \<open>add_content\<close> succeed for a content whose content type and status are
  members of their enums (whose values are distinct) and whose metadata, when it is not
  empty, is a value that \<open>json.loads\<close> reads back from the non-empty text of
  \<open>json.dumps\<close>; let the generated identifier be new in the table and not zero, and let
  the backend carry out the select. Then \<open>get_content\<close> by that identifier returns
  the content as it was supplied, with the identifier: every field is equal, the content
  type and the status are the members supplied, and the metadata is the value supplied
  (\<open>None\<close> when it was \<open>None\<close>). With \<open>returning_id\<close> the identifier is the one
  that \<open>add_content\<close> returned.
\<close>

theorem add_content_get_content_roundtrip:
  assumes add: "fst (add_content E c returning_id s) = Inr r"
      and fresh: "\<forall>row \<in> set (contents_tbl (db s)). c_content_id row \<noteq> Some (seq s + 1)"
      and nonzero: "seq s + 1 \<noteq> 0"
      and ct: "c_content_type c = EMember n v" "(n, v) \<in> set (ContentType E)"
              "distinct (map snd (ContentType E))"
      and st: "c_status c = EMember n' v'" "(n', v') \<in> set (ContentStatus E)"
              "distinct (map snd (ContentStatus E))"
      and js: "py_truthy (c_content_metadata c) \<longrightarrow>
                 json_dumps E (c_content_metadata c) \<noteq> []
                 \<and> json_loads E (json_dumps E (c_content_metadata c)) = Inr (c_content_metadata c)"
      and sel: "accepts_next (snd (add_content E c returning_id s))"
  shows "fst (get_content E (Some (seq s + 1)) coll_id scope name content_type min_id max_id
                (snd (add_content E c returning_id s)))
           = Inr (c\<lparr>c_content_id := Some (seq s + 1)\<rparr>)
       \<and> r = (if returning_id then Some (seq s + 1) else None)"
proof -
  let ?s' = "snd (add_content E c returning_id s)"
  let ?i = "seq s + 1"
  let ?row = "(content_param E c)\<lparr>c_content_id := Some ?i\<rparr>"
  note added = add_content_Inr [OF add]
  have tbl: "contents_tbl (db ?s') = contents_tbl (db s) @ [?row]"
    using added(1) by simp
  have "fst (fetchone [Eq_content_id (Some ?i)] ?s') = Inr (Some ?row)"
    using fetchone_accepted [OF sel, of "[Eq_content_id (Some ?i)]"] tbl
      find_fresh_id [OF fresh, of "content_param E c"] by simp
  then obtain s2 where f: "fetchone [Eq_content_id (Some ?i)] ?s' = (Inr (Some ?row), s2)"
    by (cases "fetchone [Eq_content_id (Some ?i)] ?s'") simp
  have conv: "content_of_row E ?row = Inr (c\<lparr>c_content_id := Some ?i\<rparr>)"
    using content_of_row_roundtrip [OF ct st] js by blast
  have "fst (get_content E (Some ?i) coll_id scope name content_type min_id max_id ?s')
          = Inr (c\<lparr>c_content_id := Some ?i\<rparr>)"
    using nonzero f conv by (simp add: get_content_def falsy_id_def)
  with added(2) show ?thesis by simp
qed

theorem add_content_get_content_roundtrip_witness:
  "fst (add_content example_env example_content True contents_session) = Inr (Some 3)
   \<and> list_all (\<lambda>row. c_content_id row \<noteq> Some (seq contents_session + 1))
        (contents_tbl (db contents_session))
   \<and> seq contents_session + 1 \<noteq> 0
   \<and> c_content_type example_content = EMember ''Event'' 1
   \<and> (''Event'', 1) \<in> set (ContentType example_env)
   \<and> distinct (map snd (ContentType example_env))
   \<and> c_status example_content = EMember ''New'' 0
   \<and> (''New'', 0) \<in> set (ContentStatus example_env)
   \<and> distinct (map snd (ContentStatus example_env))
   \<and> py_truthy (c_content_metadata example_content)
   \<and> json_dumps example_env (c_content_metadata example_content) \<noteq> []
   \<and> json_loads example_env (json_dumps example_env (c_content_metadata example_content))
       = Inr (c_content_metadata example_content)
   \<and> accepts_next (snd (add_content example_env example_content True contents_session))
   \<and> fst (get_content example_env (Some (seq contents_session + 1)) None None None ENone None None
             (snd (add_content example_env example_content True contents_session)))
        = Inr (example_content\<lparr>c_content_id := Some (seq contents_session + 1)\<rparr>)
   \<and> seq contents_session + 1 = 3"
proof -
  have add: "fst (add_content example_env example_content True contents_session) = Inr (Some 3)"
    by code_simp
  have fresh: "list_all (\<lambda>row. c_content_id row \<noteq> Some (seq contents_session + 1))
                 (contents_tbl (db contents_session))"
    by (simp add: contents_session_def empty_session_def empty_db_def file_row_def event_row_def)
  then have fresh': "\<forall>row \<in> set (contents_tbl (db contents_session)).
                 c_content_id row \<noteq> Some (seq contents_session + 1)"
    by (simp add: list_all_iff)
  have nonzero: "seq contents_session + 1 \<noteq> 0"
    by (simp add: contents_session_def empty_session_def)
  have ct: "c_content_type example_content = EMember ''Event'' 1"
    by (simp add: example_content_def)
  have ct_in: "(''Event'', 1) \<in> set (ContentType example_env)"
    by (simp add: example_env_def)
  have ct_d: "distinct (map snd (ContentType example_env))"
    by (simp add: example_env_def)
  have st: "c_status example_content = EMember ''New'' 0"
    by (simp add: example_content_def)
  have st_in: "(''New'', 0) \<in> set (ContentStatus example_env)"
    by (simp add: example_env_def)
  have st_d: "distinct (map snd (ContentStatus example_env))"
    by (simp add: example_env_def)
  have truthy: "py_truthy (c_content_metadata example_content)"
    by (simp add: example_content_def example_metadata_def)
  have dumps: "json_dumps example_env (c_content_metadata example_content) \<noteq> []"
    by (simp add: example_env_def example_content_def)
  have loads: "json_loads example_env (json_dumps example_env (c_content_metadata example_content))
                 = Inr (c_content_metadata example_content)"
    by (simp add: example_env_def example_content_def)
  have js: "py_truthy (c_content_metadata example_content) \<longrightarrow>
         json_dumps example_env (c_content_metadata example_content) \<noteq> []
         \<and> json_loads example_env (json_dumps example_env (c_content_metadata example_content))
             = Inr (c_content_metadata example_content)"
    using dumps loads by simp
  have sel: "accepts_next (snd (add_content example_env example_content True contents_session))"
    by code_simp
  from add_content_get_content_roundtrip [OF add fresh' nonzero ct ct_in ct_d st st_in st_d js sel]
  have returned: "fst (get_content example_env (Some (seq contents_session + 1)) None None None ENone
                     None None
                     (snd (add_content example_env example_content True contents_session)))
                = Inr (example_content\<lparr>c_content_id := Some (seq contents_session + 1)\<rparr>)"
    and ident: "Some 3 = (if True then Some (seq contents_session + 1) else None)"
    by blast+
  from ident have "seq contents_session + 1 = 3" by simp
  with add fresh nonzero ct ct_in ct_d st st_in st_d truthy dumps loads sel returned
  show ?thesis by blast
qed

section \<open>Backend errors of the content inserts\<close>

text \<open>
  Claim C9, as the code has it. When the backend raises an error at the insert of
  \<open>add_content\<close>, or at one of the batched inserts of \<open>add_contents\<close> (called
  without \<open>returning_id\<close>, with a positive \<open>bulk_size\<close>), the call raises:
  for an integrity error \<open>DuplicatedObject\<close>, whose message ends with the text of the
  backend error and, in \<open>add_content\<close> only, names \<open>coll_id:scope:name\<close> of the
  content (the message of \<open>add_contents\<close> is \<open>Duplicated objects:\<close> and the backend's
  text); for any other database error \<open>DatabaseException\<close>; an error outside that
  hierarchy is passed on. The call raises \<open>DuplicatedObject\<close> if and only if the
  backend has raised an integrity error at such an insert.
\<close>

theorem backend_errors_reraised:
  assumes "default_params E (now s) = Inr defaults" and "0 < bulk_size"
  shows "(\<forall>err. first_error 1 s = Some err \<longrightarrow>
            fst (add_content E c returning_id s) =
              Inl (case err of
                     IntegrityError t \<Rightarrow>
                       DuplicatedObject
                         (''Content coll_id:scope:name('' @ str_int_option (c_coll_id c) @ '':''
                            @ str_option (c_scope c) @ '':'' @ str_option (c_name c)
                            @ '') already exists!: '' @ t)
                   | DatabaseError t \<Rightarrow> DatabaseException t
                   | DriverError t \<Rightarrow> BackendException (DriverError t)))
       \<and> ((\<exists>m. fst (add_content E c returning_id s) = Inl (DuplicatedObject m))
            \<longleftrightarrow> (\<exists>t. first_error 1 s = Some (IntegrityError t)))
       \<and> (\<forall>err. first_error ((length contents + nat bulk_size - 1) div nat bulk_size) s = Some err
            \<longrightarrow> fst (add_contents E contents False bulk_size s) =
              Inl (case err of
                     IntegrityError t \<Rightarrow> DuplicatedObject (''Duplicated objects: '' @ t)
                   | DatabaseError t \<Rightarrow> DatabaseException t
                   | DriverError t \<Rightarrow> BackendException (DriverError t)))
       \<and> ((\<exists>m. fst (add_contents E contents False bulk_size s) = Inl (DuplicatedObject m))
            \<longleftrightarrow> (\<exists>t. first_error ((length contents + nat bulk_size - 1) div nat bulk_size) s
                       = Some (IntegrityError t)))"
proof -
  let ?nb = "(length contents + nat bulk_size - 1) div nat bulk_size"
  have a1: "fst (add_content E c returning_id s) =
              Inl (case err of
                     IntegrityError t \<Rightarrow>
                       DuplicatedObject
                         (''Content coll_id:scope:name('' @ str_int_option (c_coll_id c) @ '':''
                            @ str_option (c_scope c) @ '':'' @ str_option (c_name c)
                            @ '') already exists!: '' @ t)
                   | DatabaseError t \<Rightarrow> DatabaseException t
                   | DriverError t \<Rightarrow> BackendException (DriverError t))"
    if "first_error 1 s = Some err" for err
  proof -
    from that obtain rest where "outcomes s = Some err # rest" using first_error_1 by blast
    from add_content_body_error [OF this] show ?thesis
      unfolding add_content_def by (rule fst_transactional_session_Inl)
  qed
  have a2: "(\<exists>m. fst (add_content E c returning_id s) = Inl (DuplicatedObject m))
            \<longleftrightarrow> (\<exists>t. first_error 1 s = Some (IntegrityError t))"
  proof
    assume "\<exists>m. fst (add_content E c returning_id s) = Inl (DuplicatedObject m)"
    then obtain m where "fst (add_content E c returning_id s) = Inl (DuplicatedObject m)" ..
    from transactional_session_DuplicatedObject [OF this [unfolded add_content_def]]
    have "fst (add_content_body E c returning_id s) = Inl (DuplicatedObject m)" .
    from add_content_body_duplicate [OF this] show "\<exists>t. first_error 1 s = Some (IntegrityError t)"
      using first_error_1 by blast
  next
    assume "\<exists>t. first_error 1 s = Some (IntegrityError t)"
    then obtain t where "first_error 1 s = Some (IntegrityError t)" ..
    from a1 [OF this] show "\<exists>m. fst (add_content E c returning_id s) = Inl (DuplicatedObject m)"
      by simp
  qed
  note body = add_contents_body_result [OF assms, of contents]
  have b1: "fst (add_contents E contents False bulk_size s) =
              Inl (case err of
                     IntegrityError t \<Rightarrow> DuplicatedObject (''Duplicated objects: '' @ t)
                   | DatabaseError t \<Rightarrow> DatabaseException t
                   | DriverError t \<Rightarrow> BackendException (DriverError t))"
    if "first_error ?nb s = Some err" for err
  proof -
    from body that have "fst (add_contents_body E contents False bulk_size s) =
              Inl (case err of
                     IntegrityError t \<Rightarrow> DuplicatedObject (''Duplicated objects: '' @ t)
                   | DatabaseError t \<Rightarrow> DatabaseException t
                   | DriverError t \<Rightarrow> BackendException (DriverError t))" by simp
    then show ?thesis unfolding add_contents_def by (rule fst_transactional_session_Inl)
  qed
  have b2: "(\<exists>m. fst (add_contents E contents False bulk_size s) = Inl (DuplicatedObject m))
            \<longleftrightarrow> (\<exists>t. first_error ?nb s = Some (IntegrityError t))"
  proof
    assume "\<exists>m. fst (add_contents E contents False bulk_size s) = Inl (DuplicatedObject m)"
    then obtain m where "fst (add_contents E contents False bulk_size s) = Inl (DuplicatedObject m)" ..
    from transactional_session_DuplicatedObject [OF this [unfolded add_contents_def]]
    have "fst (add_contents_body E contents False bulk_size s) = Inl (DuplicatedObject m)" .
    with body show "\<exists>t. first_error ?nb s = Some (IntegrityError t)"
      by (auto split: option.splits backend_error.splits)
  next
    assume "\<exists>t. first_error ?nb s = Some (IntegrityError t)"
    then obtain t where "first_error ?nb s = Some (IntegrityError t)" ..
    from b1 [OF this] show "\<exists>m. fst (add_contents E contents False bulk_size s) = Inl (DuplicatedObject m)"
      by simp
  qed
  from a1 a2 b1 b2 show ?thesis by blast
qed

theorem backend_errors_reraised_witness:
  "default_params example_env (now refusing_session) = Inr example_defaults
   \<and> (0::int) < 100
   \<and> first_error 1 refusing_session = Some (IntegrityError ''unique constraint violated'')
   \<and> fst (add_content example_env example_content True refusing_session)
       = Inl (DuplicatedObject
           ''Content coll_id:scope:name(7:data18:file1) already exists!: unique constraint violated'')
   \<and> first_error ((length [example_item] + nat 100 - 1) div nat 100) refusing_session
       = Some (IntegrityError ''unique constraint violated'')
   \<and> fst (add_contents example_env [example_item] False 100 refusing_session)
       = Inl (DuplicatedObject ''Duplicated objects: unique constraint violated'')"
proof -
  have d: "default_params example_env (now refusing_session) = Inr example_defaults"
    by (simp add: default_params_def enum_attr_def example_env_def example_defaults_def
          refusing_session_def empty_session_def)
  have b: "(0::int) < 100" by simp
  have e1: "first_error 1 refusing_session = Some (IntegrityError ''unique constraint violated'')"
    by code_simp
  have e2: "first_error ((length [example_item] + nat 100 - 1) div nat 100) refusing_session
              = Some (IntegrityError ''unique constraint violated'')"
    by code_simp
  note reraised = backend_errors_reraised [OF d b, where c = example_content
      and returning_id = True and contents = "[example_item]"]
  from reraised e1
  have "fst (add_content example_env example_content True refusing_session)
          = Inl (case IntegrityError ''unique constraint violated'' of
                   IntegrityError t \<Rightarrow>
                     DuplicatedObject
                       (''Content coll_id:scope:name('' @ str_int_option (c_coll_id example_content)
                          @ '':'' @ str_option (c_scope example_content) @ '':''
                          @ str_option (c_name example_content) @ '') already exists!: '' @ t)
                 | DatabaseError t \<Rightarrow> DatabaseException t
                 | DriverError t \<Rightarrow> BackendException (DriverError t))" by blast
  moreover have "''Content coll_id:scope:name('' @ str_int_option (c_coll_id example_content)
                   @ '':'' @ str_option (c_scope example_content) @ '':''
                   @ str_option (c_name example_content) @ '') already exists!: ''
                   @ ''unique constraint violated''
        = ''Content coll_id:scope:name(7:data18:file1) already exists!: unique constraint violated''"
    by code_simp
  ultimately have one: "fst (add_content example_env example_content True refusing_session)
       = Inl (DuplicatedObject
           ''Content coll_id:scope:name(7:data18:file1) already exists!: unique constraint violated'')"
    by simp
  from reraised e2
  have "fst (add_contents example_env [example_item] False 100 refusing_session)
          = Inl (case IntegrityError ''unique constraint violated'' of
                   IntegrityError t \<Rightarrow> DuplicatedObject (''Duplicated objects: '' @ t)
                 | DatabaseError t \<Rightarrow> DatabaseException t
                 | DriverError t \<Rightarrow> BackendException (DriverError t))" by blast
  then have bulk: "fst (add_contents example_env [example_item] False 100 refusing_session)
       = Inl (DuplicatedObject ''Duplicated objects: unique constraint violated'')"
    by simp
  from d b e1 one e2 bulk show ?thesis by blast
qed

text \<open>
  The claim as the spec states it fails for \<open>add_contents\<close>: the message of its
  \<open>DuplicatedObject\<close> has the text of the backend error only, neither the scope nor the
  name of the content that the backend refused.
\<close>

theorem add_contents_message_counterexample:
  "fst (add_contents example_env
          [[K_coll_id (Some 7), K_scope (Some ''data18''), K_name (Some ''file1'')]]
          False 100 refusing_session)
     = Inl (DuplicatedObject ''Duplicated objects: unique constraint violated'')
   \<and> \<not> sublist ''data18'' ''Duplicated objects: unique constraint violated''
   \<and> \<not> sublist ''file1'' ''Duplicated objects: unique constraint violated''"
  by code_simp

end
